theory Spec2Isabelle
  imports Complex_Main
begin

section \<open>Vehicle and controller data\<close>

text \<open>
  The controllers of \<^verbatim>\<open>src/navigation/controllers.cpp\<close> compute with \<^verbatim>\<open>float\<close> and
  \<^verbatim>\<open>double\<close>. Here every such quantity is a \<^typ>\<open>real\<close>: arithmetic is exact, there is no
  rounding, no infinity and no NaN. Where the C library would answer NaN inside the code
  (\<^verbatim>\<open>acos\<close>, \<^verbatim>\<open>asin\<close> outside \<open>[-1, 1]\<close>, or after a division by zero) the model returns
  \<^const>\<open>None\<close> and the comparison that follows is false, as it is in C. Two places are
  modelled more closely, because there the step from \<^verbatim>\<open>float\<close> to \<^typ>\<open>real\<close> would change
  which branch the code takes:
  \<^item> the loop of \<^verbatim>\<open>evaluatePaths\<close> accumulates its curvature by binary32 additions and
    compares binary32 scores; the addition and the body of the loop are arguments of the
    model of the loop;
  \<^item> the current speed handed to \<^verbatim>\<open>generateCommand\<close> can be NaN or infinite;
    \<^verbatim>\<open>calculateControlSpeed\<close> is translated a second time on such speeds.

  The car (\<^verbatim>\<open>vehicles::Car\<close>) is read through \<^verbatim>\<open>car_->dimensions_\<close> and
  \<^verbatim>\<open>car_->limits_\<close>; the trailing underscores of the member names are dropped, and
  \<^verbatim>\<open>length_\<close> is \<open>length_dim\<close>.
\<close>

record Dimensions =
  width :: real
  length_dim :: real
  wheelbase :: real

record Limits =
  max_speed :: real
  max_acceleration :: real
  max_curvature :: real

record Car =
  dimensions :: Dimensions
  limits :: Limits

record Controller =
  car :: Car
  control_interval :: real
  margin :: real
  max_clearance :: real
  curvature_sampling_interval :: real

type_synonym Vector2f = "real \<times> real"

section \<open>1D time-optimal control\<close>

subsection \<open>calculateControlSpeed\<close>

text \<open>
  The four cases in the order of the source; cases 3 and 4 assign the same speed (case 4
  also prints a warning, which is not part of the returned value). The two clamps follow.
\<close>

definition calculateControlSpeed :: "Controller \<Rightarrow> real \<Rightarrow> real \<Rightarrow> real" where
  "calculateControlSpeed C current_speed0 free_path_length =
    (let vmax = max_speed (limits (car C));
         amax = max_acceleration (limits (car C));
         dt = control_interval C;
         current_speed =
           (if current_speed0 \<ge> vmax - 0.05 \<and> current_speed0 \<le> vmax + 0.05
            then vmax else current_speed0);
         control_speed =
           (if current_speed < vmax \<and>
               free_path_length \<ge> current_speed * dt + (amax * dt) * dt / 2
                                  + (current_speed + amax * dt)\<^sup>2 / (2 * amax)
            then current_speed + amax * dt
            else if current_speed = vmax \<and>
               free_path_length \<ge> current_speed * dt + vmax * vmax / (2 * amax)
            then current_speed
            else if free_path_length < current_speed\<^sup>2 / (2 * amax)
            then current_speed - amax * dt
            else current_speed - amax * dt);
         control_speed = (if control_speed < 0 then 0 else control_speed);
         control_speed = (if control_speed > vmax then vmax else control_speed)
     in control_speed)"

subsection \<open>Library functions used by the geometry\<close>

text \<open>\<^verbatim>\<open>atan2(y, x)\<close> of the C library, on reals.\<close>

definition atan2 :: "real \<Rightarrow> real \<Rightarrow> real" where
  "atan2 y x =
    (if x > 0 then arctan (y / x)
     else if x < 0 then (if y \<ge> 0 then arctan (y / x) + pi else arctan (y / x) - pi)
     else if y > 0 then pi / 2
     else if y < 0 then - (pi / 2)
     else 0)"

text \<open>
  \<^verbatim>\<open>acos(a / b)\<close> and \<^verbatim>\<open>asin(a / b)\<close>: a zero divisor gives an infinity or NaN in C, and
  the function value is then NaN, as it is for an argument outside \<open>[-1, 1]\<close>.
\<close>

definition acos_div :: "real \<Rightarrow> real \<Rightarrow> real option" where
  "acos_div a b =
    (if b = 0 then None
     else if - 1 \<le> a / b \<and> a / b \<le> 1 then Some (arccos (a / b)) else None)"

definition asin_div :: "real \<Rightarrow> real \<Rightarrow> real option" where
  "asin_div a b =
    (if b = 0 then None
     else if - 1 \<le> a / b \<and> a / b \<le> 1 then Some (arcsin (a / b)) else None)"

subsection \<open>calculateFreePathLength\<close>

definition initial_free_path_length :: "Controller \<Rightarrow> real" where
  "initial_free_path_length C =
    10 - (margin C + (length_dim (dimensions (car C)) + wheelbase (dimensions (car C))) / 2)"

text \<open>Body of the loop of the straight-line case.\<close>

definition straight_point :: "Controller \<Rightarrow> Vector2f \<Rightarrow> real \<Rightarrow> real" where
  "straight_point C point free_path_length =
    (if \<bar>snd point\<bar> < width (dimensions (car C)) / 2 + margin C \<and> fst point > 0
     then (let candidate_free_path_length =
                 fst point - (margin C + (length_dim (dimensions (car C))
                                          + wheelbase (dimensions (car C))) / 2)
           in if candidate_free_path_length < free_path_length
              then candidate_free_path_length else free_path_length)
     else free_path_length)"

text \<open>The five radii computed before the loop of the arc case.\<close>

definition inside_rear_axle_radius :: "Controller \<Rightarrow> real \<Rightarrow> real" where
  "inside_rear_axle_radius C radius = radius - (margin C + width (dimensions (car C)) / 2)"

definition inside_front_corner_radius :: "Controller \<Rightarrow> real \<Rightarrow> real" where
  "inside_front_corner_radius C radius =
    sqrt ((radius - (margin C + width (dimensions (car C)) / 2))\<^sup>2
          + (margin C + (length_dim (dimensions (car C))
                         + wheelbase (dimensions (car C))) / 2)\<^sup>2)"

definition outside_front_corner_radius :: "Controller \<Rightarrow> real \<Rightarrow> real" where
  "outside_front_corner_radius C radius =
    sqrt ((radius + (margin C + width (dimensions (car C)) / 2))\<^sup>2
          + (margin C + (length_dim (dimensions (car C))
                         + wheelbase (dimensions (car C))) / 2)\<^sup>2)"

definition outside_rear_corner_radius :: "Controller \<Rightarrow> real \<Rightarrow> real" where
  "outside_rear_corner_radius C radius =
    sqrt ((radius + (margin C + width (dimensions (car C)) / 2))\<^sup>2
          + (margin C + (length_dim (dimensions (car C))
                         - wheelbase (dimensions (car C))) / 2)\<^sup>2)"

definition outside_rear_axle_radius :: "Controller \<Rightarrow> real \<Rightarrow> real" where
  "outside_rear_axle_radius C radius = radius + (margin C + width (dimensions (car C)) / 2)"

text \<open>
  Body of the loop of the arc case. The loop carries two variables of the function:
  \<^verbatim>\<open>free_path_length\<close> and the outer \<^verbatim>\<open>candidate_free_path_length\<close>, which only condition
  three assigns. Conditions one and two are an \<^verbatim>\<open>if\<close> / \<^verbatim>\<open>else if\<close>; condition three is
  a separate \<^verbatim>\<open>if\<close> that runs after them and reads the updated \<^verbatim>\<open>free_path_length\<close>.
\<close>

definition arc_point ::
  "Controller \<Rightarrow> real \<Rightarrow> real \<Rightarrow> Vector2f \<Rightarrow> real \<times> real \<Rightarrow> real \<times> real" where
  "arc_point C curvature radius point0 st =
    (let free_path_length = fst st;
         candidate_free_path_length = snd st;
         point = (if curvature < 0 then (fst point0, snd point0 * (- 1)) else point0);
         point_radius = sqrt ((fst point)\<^sup>2 + (radius - snd point)\<^sup>2);
         theta = atan2 (fst point) (radius - snd point)
     in if point_radius < inside_rear_axle_radius C radius then st
        else if point_radius > max (outside_front_corner_radius C radius)
                                   (outside_rear_corner_radius C radius) then st
        else
          (let free_path_length =
                 (if inside_rear_axle_radius C radius \<le> point_radius
                     \<and> point_radius < inside_front_corner_radius C radius \<and> theta > 0
                  then (case acos_div (inside_rear_axle_radius C radius) point_radius of
                          None \<Rightarrow> free_path_length
                        | Some psi \<Rightarrow>
                            (let phi = theta - psi
                             in if radius * phi < free_path_length
                                then radius * phi else free_path_length))
                  else if inside_front_corner_radius C radius \<le> point_radius
                     \<and> point_radius < outside_front_corner_radius C radius \<and> theta > 0
                  then (case asin_div (margin C + (length_dim (dimensions (car C))
                                         + wheelbase (dimensions (car C))) / 2) point_radius of
                          None \<Rightarrow> free_path_length
                        | Some psi \<Rightarrow>
                            (let phi = theta - psi
                             in if radius * phi < free_path_length
                                then radius * phi else free_path_length))
                  else free_path_length);
               candidate_free_path_length =
                 (if outside_rear_axle_radius C radius \<le> point_radius
                     \<and> point_radius < outside_rear_corner_radius C radius
                  then (if \<bar>fst point\<bar> < margin C + (length_dim (dimensions (car C))
                                                     - wheelbase (dimensions (car C))) / 2
                           \<and> margin C + width (dimensions (car C)) / 2 < \<bar>snd point\<bar>
                        then (case acos_div (outside_rear_axle_radius C radius) point_radius of
                                None \<Rightarrow> candidate_free_path_length
                              | Some a \<Rightarrow>
                                  (let psi = - 1 * a;
                                       phi = theta - psi
                                   in if radius * phi < free_path_length
                                      then radius * phi else candidate_free_path_length))
                        else candidate_free_path_length)
                  else candidate_free_path_length)
           in (free_path_length, candidate_free_path_length)))"

definition calculateFreePathLength :: "Controller \<Rightarrow> Vector2f list \<Rightarrow> real \<Rightarrow> real" where
  "calculateFreePathLength C point_cloud curvature =
    (let free_path_length = initial_free_path_length C;
         candidate_free_path_length = 0
     in if \<bar>curvature\<bar> < 0.01
        then fold (straight_point C) point_cloud free_path_length
        else (let radius = 1 / curvature;
                  radius = (if curvature < 0 then radius * (- 1) else radius)
              in fst (fold (arc_point C curvature radius) point_cloud
                        (free_path_length, candidate_free_path_length))))"

text \<open>
  The arc case with conditions one and two alone: the same loop without the block of
  condition three and without the variable it assigns. This is the reference the
  behaviour of \<^const>\<open>calculateFreePathLength\<close> is compared with.
\<close>

definition arc_point_conditions_1_2 ::
  "Controller \<Rightarrow> real \<Rightarrow> real \<Rightarrow> Vector2f \<Rightarrow> real \<Rightarrow> real" where
  "arc_point_conditions_1_2 C curvature radius point0 free_path_length =
    (let point = (if curvature < 0 then (fst point0, snd point0 * (- 1)) else point0);
         point_radius = sqrt ((fst point)\<^sup>2 + (radius - snd point)\<^sup>2);
         theta = atan2 (fst point) (radius - snd point)
     in if point_radius < inside_rear_axle_radius C radius then free_path_length
        else if point_radius > max (outside_front_corner_radius C radius)
                                   (outside_rear_corner_radius C radius) then free_path_length
        else if inside_rear_axle_radius C radius \<le> point_radius
                \<and> point_radius < inside_front_corner_radius C radius \<and> theta > 0
        then (case acos_div (inside_rear_axle_radius C radius) point_radius of
                None \<Rightarrow> free_path_length
              | Some psi \<Rightarrow>
                  (let phi = theta - psi
                   in if radius * phi < free_path_length
                      then radius * phi else free_path_length))
        else if inside_front_corner_radius C radius \<le> point_radius
                \<and> point_radius < outside_front_corner_radius C radius \<and> theta > 0
        then (case asin_div (margin C + (length_dim (dimensions (car C))
                               + wheelbase (dimensions (car C))) / 2) point_radius of
                None \<Rightarrow> free_path_length
              | Some psi \<Rightarrow>
                  (let phi = theta - psi
                   in if radius * phi < free_path_length
                      then radius * phi else free_path_length))
        else free_path_length)"

definition free_path_length_conditions_1_2 ::
  "Controller \<Rightarrow> Vector2f list \<Rightarrow> real \<Rightarrow> real" where
  "free_path_length_conditions_1_2 C point_cloud curvature =
    (let radius = 1 / curvature;
         radius = (if curvature < 0 then radius * (- 1) else radius)
     in fold (arc_point_conditions_1_2 C curvature radius) point_cloud
          (initial_free_path_length C))"

subsection \<open>calculateClearance\<close>

text \<open>
  \<^verbatim>\<open>utils::transforms::transformICOM\<close> is defined outside this file; it is the parameter
  \<open>transformICOM\<close> of the model, a function of \<open>(x, y, phi, radius)\<close>.

  In the test of the points beside the final position the source writes
  \<^verbatim>\<open>(pos.x() <= car_->dimensions_.wheelbase_) / 2\<close>: the comparison is a \<^verbatim>\<open>bool\<close>, promoted
  to \<^verbatim>\<open>int\<close> and divided by two as an integer, then read as a truth value.
\<close>

type_synonym ICOM = "real \<Rightarrow> real \<Rightarrow> real \<Rightarrow> real \<Rightarrow> Vector2f"

definition clearance_straight_point ::
  "Controller \<Rightarrow> real \<Rightarrow> Vector2f \<Rightarrow> real \<Rightarrow> real" where
  "clearance_straight_point C free_path_length point min_clearance =
    (if (width (dimensions (car C)) / 2 + margin C \<le> \<bar>snd point\<bar>
           \<and> \<bar>snd point\<bar> \<le> max_clearance C)
        \<and> (0 \<le> fst point
           \<and> fst point \<le> free_path_length + wheelbase (dimensions (car C)))
     then (let clearance = \<bar>snd point\<bar> - wheelbase (dimensions (car C)) / 2 - margin C
           in if clearance < min_clearance then clearance else min_clearance)
     else min_clearance)"

definition clearance_arc_point ::
  "ICOM \<Rightarrow> Controller \<Rightarrow> real \<Rightarrow> real \<Rightarrow> real \<Rightarrow> Vector2f \<Rightarrow> real \<Rightarrow> real" where
  "clearance_arc_point transformICOM C curvature radius free_path_length point0 min_clearance0 =
    (let point = (if curvature < 0 then (fst point0, snd point0 * (- 1)) else point0);
         point_radius = sqrt ((fst point)\<^sup>2 + (radius - snd point)\<^sup>2);
         theta = atan2 (fst point) (radius - snd point);
         phi = free_path_length / radius;
         min_clearance =
           (if (0 \<le> theta \<and> theta \<le> phi)
               \<and> (radius - width (dimensions (car C)) / 2 - margin C - max_clearance C
                     \<le> point_radius
                  \<and> point_radius
                     \<le> radius + width (dimensions (car C)) / 2 + margin C + max_clearance C)
            then (let clearance = \<bar>point_radius * cos theta - radius\<bar>
                                   - width (dimensions (car C)) / 2 - margin C
                  in if clearance < min_clearance0 then clearance else min_clearance0)
            else min_clearance0);
         pos = transformICOM (fst point) (snd point) phi radius
     in if (width (dimensions (car C)) / 2 + margin C \<le> \<bar>snd pos\<bar>
              \<and> \<bar>snd pos\<bar> \<le> max_clearance C)
           \<and> (0 \<le> fst pos
              \<and> (if fst pos \<le> wheelbase (dimensions (car C)) then 1 else 0 :: int) div 2 \<noteq> 0)
        then (let clearance = \<bar>snd pos\<bar> - width (dimensions (car C)) / 2 - margin C
              in if clearance < min_clearance then clearance else min_clearance)
        else min_clearance)"

definition calculateClearance ::
  "ICOM \<Rightarrow> Controller \<Rightarrow> Vector2f list \<Rightarrow> real \<Rightarrow> real \<Rightarrow> real" where
  "calculateClearance transformICOM C point_cloud curvature free_path_length =
    (let min_clearance = max_clearance C
     in if \<bar>curvature\<bar> < 0.01
        then fold (clearance_straight_point C free_path_length) point_cloud min_clearance
        else (let radius = 1 / curvature;
                  radius = (if curvature < 0 then radius * (- 1) else radius)
              in fold (clearance_arc_point transformICOM C curvature radius free_path_length)
                   point_cloud min_clearance))"

subsection \<open>calculateDistanceToGoal\<close>

text \<open>\<^verbatim>\<open>(goal - projected_pos).norm()\<close> is the Euclidean norm of the difference.\<close>

definition norm2 :: "Vector2f \<Rightarrow> real" where
  "norm2 v = sqrt ((fst v)\<^sup>2 + (snd v)\<^sup>2)"

definition calculateDistanceToGoal :: "Controller \<Rightarrow> real \<Rightarrow> real" where
  "calculateDistanceToGoal C curvature =
    (let goal = (10, 0) :: Vector2f
     in if \<bar>curvature\<bar> < 0.01
        then (let projected_pos = (max_speed (limits (car C)) * control_interval C, 0)
              in norm2 (fst goal - fst projected_pos, snd goal - snd projected_pos))
        else (let radius = 1 / curvature;
                  phi = (max_speed (limits (car C)) * control_interval C) / radius;
                  projected_pos = (radius * sin phi, radius - radius * cos phi)
              in norm2 (fst goal - fst projected_pos, snd goal - snd projected_pos)))"

subsection \<open>evaluatePaths and generateCommand\<close>

record PathCandidate =
  curvature :: real
  free_path_length :: real
  clearance :: real
  goal_distance :: real
  score :: real

record Command =
  velocity :: real
  curvature :: real

text \<open>
  \<^verbatim>\<open>PathCandidate(-100)\<close>: the constructor is declared in the header, which is not part of
  the sources at hand. It sets the score; the values it leaves in the other members are the
  parameter \<open>dflt\<close> of the model.
\<close>

definition PathCandidate_of_score :: "PathCandidate \<Rightarrow> real \<Rightarrow> PathCandidate" where
  "PathCandidate_of_score dflt s = dflt\<lparr>score := s\<rparr>"

text \<open>The candidate built by one pass of the loop of \<^verbatim>\<open>evaluatePaths\<close>.\<close>

definition path_candidate :: "ICOM \<Rightarrow> Controller \<Rightarrow> Vector2f list \<Rightarrow> real \<Rightarrow> PathCandidate" where
  "path_candidate transformICOM C point_cloud path_curvature =
    (let w1 = 8; w2 = - 0.5;
         fpl = calculateFreePathLength C point_cloud path_curvature;
         cl = calculateClearance transformICOM C point_cloud path_curvature fpl;
         gd = calculateDistanceToGoal C path_curvature
     in \<lparr>PathCandidate.curvature = path_curvature, free_path_length = fpl, clearance = cl,
         goal_distance = gd, score = fpl + w1 * cl + w2 * gd\<rparr>)"

text \<open>
  The selection step of the loop,
  \<^verbatim>\<open>if (candidate.score > best_path.score) best_path = candidate\<close>.
\<close>

definition select_path :: "PathCandidate \<Rightarrow> PathCandidate \<Rightarrow> PathCandidate" where
  "select_path candidate best_path =
    (if score candidate > score best_path then candidate else best_path)"

text \<open>
  The \<^verbatim>\<open>for\<close> loop over the sampled curvatures. Two parts of it depend on the binary32
  arithmetic of the program and are arguments of the model, so that what is proved of the
  loop holds for the values the program computes and not only for exact ones:
  \<^item> \<open>next\<close> is the step \<^verbatim>\<open>path_curvature += curvature_sampling_interval_\<close>, a binary32
    addition, whose sums are in general not the exact ones;
  \<^item> \<open>candidate\<close> maps a curvature to the candidate that the body of the loop builds for
    it (the body computes its score in binary32).
  The loop does not return when the step does not advance, hence the option type.
\<close>

partial_function (option) evaluatePaths_loop ::
  "(real \<Rightarrow> PathCandidate) \<Rightarrow> (real \<Rightarrow> real) \<Rightarrow> real \<Rightarrow> real \<Rightarrow> PathCandidate
     \<Rightarrow> PathCandidate option" where
  "evaluatePaths_loop candidate next kmax path_curvature best_path =
    (if path_curvature \<le> kmax
     then evaluatePaths_loop candidate next kmax (next path_curvature)
            (select_path (candidate path_curvature) best_path)
     else Some best_path)"

text \<open>
  \<^verbatim>\<open>evaluatePaths\<close> with the body of the loop as an argument: the loop starts at
  \<open>- 1 * max_curvature\<close> with the sentinel of score \<open>- 100\<close> and steps by the sampling
  interval, added by \<open>fadd\<close>, which stands for the binary32 addition.
\<close>

definition evaluatePaths_with ::
  "(real \<Rightarrow> PathCandidate) \<Rightarrow> (real \<Rightarrow> real \<Rightarrow> real) \<Rightarrow> PathCandidate \<Rightarrow> Controller
     \<Rightarrow> PathCandidate option" where
  "evaluatePaths_with candidate fadd dflt C =
    evaluatePaths_loop candidate (\<lambda>k. fadd k (curvature_sampling_interval C))
      (max_curvature (limits (car C)))
      (- 1 * max_curvature (limits (car C))) (PathCandidate_of_score dflt (- 100))"

text \<open>The last two lines of \<^verbatim>\<open>generateCommand\<close>: the command for the selected path.\<close>

definition command_for :: "Controller \<Rightarrow> real \<Rightarrow> PathCandidate \<Rightarrow> Command" where
  "command_for C current_speed path =
    \<lparr>velocity = calculateControlSpeed C current_speed (free_path_length path),
     curvature = PathCandidate.curvature path\<rparr>"

definition generateCommand_with ::
  "(real \<Rightarrow> PathCandidate) \<Rightarrow> (real \<Rightarrow> real \<Rightarrow> real) \<Rightarrow> PathCandidate \<Rightarrow> Controller \<Rightarrow> real
     \<Rightarrow> Command option" where
  "generateCommand_with candidate fadd dflt C current_speed =
    (case evaluatePaths_with candidate fadd dflt C of
       None \<Rightarrow> None
     | Some path \<Rightarrow> Some (command_for C current_speed path))"

text \<open>
  The two functions of the source, with the body \<^const>\<open>path_candidate\<close> of the loop, whose
  arithmetic is exact.
\<close>

definition evaluatePaths ::
  "(real \<Rightarrow> real \<Rightarrow> real) \<Rightarrow> ICOM \<Rightarrow> PathCandidate \<Rightarrow> Controller \<Rightarrow> Vector2f list
     \<Rightarrow> PathCandidate option" where
  "evaluatePaths fadd transformICOM dflt C point_cloud =
    evaluatePaths_with (path_candidate transformICOM C point_cloud) fadd dflt C"

definition generateCommand ::
  "(real \<Rightarrow> real \<Rightarrow> real) \<Rightarrow> ICOM \<Rightarrow> PathCandidate \<Rightarrow> Controller \<Rightarrow> Vector2f list \<Rightarrow> real
     \<Rightarrow> Command option" where
  "generateCommand fadd transformICOM dflt C point_cloud current_speed =
    generateCommand_with (path_candidate transformICOM C point_cloud) fadd dflt C current_speed"

subsection \<open>The current speed as a float\<close>

text \<open>
  The current speed is a \<^verbatim>\<open>float\<close> argument, and a float can be NaN or infinite. The
  functions above take it as a number. Here it is a value of the type below, and
  \<^verbatim>\<open>calculateControlSpeed\<close> is translated once more with the comparisons and the arithmetic
  of C on such values: every comparison with NaN is false, and NaN propagates through the
  arithmetic. Rounding, overflow and the sign of zero are left out (a zero divisor counts as
  \<open>+0\<close>). The limits of the car and the control interval are numbers.
\<close>

datatype float = NaN | PInf | NInf | Num real

fun f_neg :: "float \<Rightarrow> float" where
  "f_neg NaN = NaN"
| "f_neg PInf = NInf"
| "f_neg NInf = PInf"
| "f_neg (Num x) = Num (- x)"

fun f_plus :: "float \<Rightarrow> float \<Rightarrow> float" where
  "f_plus (Num x) (Num y) = Num (x + y)"
| "f_plus NaN b = NaN"
| "f_plus a NaN = NaN"
| "f_plus PInf NInf = NaN"
| "f_plus NInf PInf = NaN"
| "f_plus PInf b = PInf"
| "f_plus a PInf = PInf"
| "f_plus NInf b = NInf"
| "f_plus a NInf = NInf"

definition f_minus :: "float \<Rightarrow> float \<Rightarrow> float" where
  "f_minus a b = f_plus a (f_neg b)"

fun f_times :: "float \<Rightarrow> float \<Rightarrow> float" where
  "f_times (Num x) (Num y) = Num (x * y)"
| "f_times NaN b = NaN"
| "f_times a NaN = NaN"
| "f_times PInf PInf = PInf"
| "f_times PInf NInf = NInf"
| "f_times NInf PInf = NInf"
| "f_times NInf NInf = PInf"
| "f_times PInf (Num y) = (if y > 0 then PInf else if y < 0 then NInf else NaN)"
| "f_times NInf (Num y) = (if y > 0 then NInf else if y < 0 then PInf else NaN)"
| "f_times (Num x) PInf = (if x > 0 then PInf else if x < 0 then NInf else NaN)"
| "f_times (Num x) NInf = (if x > 0 then NInf else if x < 0 then PInf else NaN)"

fun f_divide :: "float \<Rightarrow> float \<Rightarrow> float" where
  "f_divide (Num x) (Num y) =
    (if y \<noteq> 0 then Num (x / y) else if x > 0 then PInf else if x < 0 then NInf else NaN)"
| "f_divide NaN b = NaN"
| "f_divide a NaN = NaN"
| "f_divide (Num x) PInf = Num 0"
| "f_divide (Num x) NInf = Num 0"
| "f_divide PInf (Num y) = (if y \<ge> 0 then PInf else NInf)"
| "f_divide NInf (Num y) = (if y \<ge> 0 then NInf else PInf)"
| "f_divide a b = NaN"

fun f_less :: "float \<Rightarrow> float \<Rightarrow> bool" where
  "f_less (Num x) (Num y) = (x < y)"
| "f_less NaN b = False"
| "f_less a NaN = False"
| "f_less NInf NInf = False"
| "f_less NInf b = True"
| "f_less a PInf = (a \<noteq> PInf)"
| "f_less a b = False"

fun f_eq :: "float \<Rightarrow> float \<Rightarrow> bool" where
  "f_eq NaN b = False"
| "f_eq a NaN = False"
| "f_eq a b = (a = b)"

definition f_le :: "float \<Rightarrow> float \<Rightarrow> bool" where
  "f_le a b = (f_less a b \<or> f_eq a b)"

text \<open>\<^verbatim>\<open>calculateControlSpeed\<close> on such a speed; \<^verbatim>\<open>pow(x, 2)\<close> is the product \<open>x * x\<close>.\<close>

definition calculateControlSpeed_float :: "Controller \<Rightarrow> float \<Rightarrow> float \<Rightarrow> float" where
  "calculateControlSpeed_float C current_speed0 fpl =
    (let vmax = max_speed (limits (car C));
         amax = max_acceleration (limits (car C));
         dt = control_interval C;
         current_speed =
           (if f_le (Num (vmax - 0.05)) current_speed0 \<and> f_le current_speed0 (Num (vmax + 0.05))
            then Num vmax else current_speed0);
         control_speed =
           (if f_less current_speed (Num vmax) \<and>
               f_le (f_plus (f_plus (f_times current_speed (Num dt)) (Num ((amax * dt) * dt / 2)))
                       (f_divide (f_times (f_plus current_speed (Num (amax * dt)))
                                          (f_plus current_speed (Num (amax * dt))))
                                 (Num (2 * amax))))
                    fpl
            then f_plus current_speed (Num (amax * dt))
            else if f_eq current_speed (Num vmax) \<and>
               f_le (f_plus (f_times current_speed (Num dt))
                            (f_divide (Num (vmax * vmax)) (Num (2 * amax))))
                    fpl
            then current_speed
            else if f_less fpl
                      (f_divide (f_times current_speed current_speed) (Num (2 * amax)))
            then f_minus current_speed (Num (amax * dt))
            else f_minus current_speed (Num (amax * dt)));
         control_speed = (if f_less control_speed (Num 0) then Num 0 else control_speed);
         control_speed = (if f_less (Num vmax) control_speed then Num vmax else control_speed)
     in control_speed)"

record Command_float =
  velocity_float :: float
  curvature_float :: real

definition generateCommand_float ::
  "(real \<Rightarrow> real \<Rightarrow> real) \<Rightarrow> ICOM \<Rightarrow> PathCandidate \<Rightarrow> Controller \<Rightarrow> Vector2f list \<Rightarrow> float
     \<Rightarrow> Command_float option" where
  "generateCommand_float fadd transformICOM dflt C point_cloud current_speed =
    (case evaluatePaths fadd transformICOM dflt C point_cloud of
       None \<Rightarrow> None
     | Some path \<Rightarrow>
         Some \<lparr>velocity_float = calculateControlSpeed_float C current_speed
                                 (Num (free_path_length path)),
               curvature_float = PathCandidate.curvature path\<rparr>)"

definition getControlInterval :: "Controller \<Rightarrow> real" where
  "getControlInterval C = control_interval C"

section \<open>Latency compensation\<close>

record CommandStamped =
  command :: Command
  timestamp :: real

record State2D =
  position :: Vector2f
  theta :: real
  speed :: real

text \<open>
  The compensator: its latency, its command history (a deque, oldest entry first) and the
  time-optimal controller it owns. The clock \<^verbatim>\<open>ros::Time::now()\<close> is an input of every
  operation that reads it.
\<close>

record LatencyController =
  latency :: real
  command_history :: "CommandStamped list"
  toc :: Controller

subsection \<open>recordCommand\<close>

definition recordCommand :: "LatencyController \<Rightarrow> CommandStamped \<Rightarrow> LatencyController" where
  "recordCommand L cs = L\<lparr>command_history := command_history L @ [cs]\<rparr>"

text \<open>
  Modelled from the spec: the constructor \<^verbatim>\<open>CommandStamped(command)\<close> is declared in the
  header, which is not part of the sources at hand. It stamps an unstamped command with the
  clock (``If callers supply an unstamped command, \<open>ts = now()\<close>''); \<open>stamp\<close> is that
  clock reading.
\<close>

definition CommandStamped_of_Command :: "real \<Rightarrow> Command \<Rightarrow> CommandStamped" where
  "CommandStamped_of_Command stamp cmd = \<lparr>command = cmd, timestamp = stamp\<rparr>"

definition recordCommand_unstamped ::
  "real \<Rightarrow> LatencyController \<Rightarrow> Command \<Rightarrow> LatencyController" where
  "recordCommand_unstamped stamp L cmd = recordCommand L (CommandStamped_of_Command stamp cmd)"

subsection \<open>projectState\<close>

text \<open>The \<^verbatim>\<open>while\<close> loop that pops the front of the history.\<close>

fun pop_expired :: "real \<Rightarrow> real \<Rightarrow> CommandStamped list \<Rightarrow> CommandStamped list" where
  "pop_expired time_threshold lat [] = []"
| "pop_expired time_threshold lat (front # rest) =
    (if time_threshold - timestamp front < lat then front # rest
     else pop_expired time_threshold lat rest)"

text \<open>Body of the loop over the remaining commands.\<close>

definition project_command :: "Controller \<Rightarrow> CommandStamped \<Rightarrow> State2D \<Rightarrow> State2D" where
  "project_command T cs state =
    (let distance_traveled = velocity (command cs) * getControlInterval T;
         state =
           (if \<bar>Command.curvature (command cs)\<bar> > 0.01
            then (let radius = 1 / Command.curvature (command cs);
                      dtheta = distance_traveled / radius
                  in state\<lparr>position := (fst (position state) + distance_traveled * cos dtheta,
                                         snd (position state) + distance_traveled * sin dtheta),
                           theta := theta state + dtheta\<rparr>)
            else state\<lparr>position := (fst (position state) + distance_traveled,
                                     snd (position state))\<rparr>)
     in state\<lparr>speed := velocity (command cs)\<rparr>)"

definition projectState ::
  "real \<Rightarrow> LatencyController \<Rightarrow> real \<Rightarrow> real \<Rightarrow> State2D \<times> LatencyController" where
  "projectState now L current_speed last_msg_timestamp =
    (let state = \<lparr>position = (0, 0), theta = 0, speed = current_speed\<rparr>
     in if length (command_history L) < 1 then (state, L)
        else (let time_threshold = now;
                  L = L\<lparr>command_history :=
                          pop_expired time_threshold (latency L) (command_history L)\<rparr>
              in (fold (project_command (toc L)) (command_history L) state, L)))"

subsection \<open>transformCloud\<close>

type_synonym Vector3f = "real \<times> real \<times> real"
type_synonym Matrix3f = "Vector3f \<times> Vector3f \<times> Vector3f"

text \<open>The inverse of a 3 by 3 matrix (rows first): cofactors over the determinant.\<close>

fun inverse3 :: "Matrix3f \<Rightarrow> Matrix3f" where
  "inverse3 ((a, b, c), (d, e, f), (g, h, i)) =
    (let det = a * (e * i - f * h) - b * (d * i - f * g) + c * (d * h - e * g)
     in (((e * i - f * h) / det, (c * h - b * i) / det, (b * f - c * e) / det),
         ((f * g - d * i) / det, (a * i - c * g) / det, (c * d - a * f) / det),
         ((d * h - e * g) / det, (b * g - a * h) / det, (a * e - b * d) / det)))"

fun mat_vec :: "Matrix3f \<Rightarrow> Vector3f \<Rightarrow> Vector3f" where
  "mat_vec ((a, b, c), (d, e, f), (g, h, i)) (x, y, z) =
    (a * x + b * y + c * z, d * x + e * y + f * z, g * x + h * y + i * z)"

definition transformCloud :: "Vector2f list \<Rightarrow> State2D \<Rightarrow> Vector2f list" where
  "transformCloud cloud state =
    (let transformation_matrix =
           ((cos (theta state), - 1 * sin (theta state), fst (position state)),
            (sin (theta state), cos (theta state), snd (position state)),
            (0, 0, 1));
         inv_transformation_matrix = inverse3 transformation_matrix
     in map (\<lambda>p. let augmented_point = (fst p, snd p, 1);
                     transformed_point = mat_vec inv_transformation_matrix augmented_point
                 in (fst transformed_point, fst (snd transformed_point))) cloud)"

subsection \<open>generateCommand and the free-path-length probe\<close>

definition generateCommand_latency ::
  "(real \<Rightarrow> real \<Rightarrow> real) \<Rightarrow> ICOM \<Rightarrow> PathCandidate \<Rightarrow> real \<Rightarrow> real \<Rightarrow> LatencyController
     \<Rightarrow> Vector2f list \<Rightarrow> real \<Rightarrow> real \<Rightarrow> (Command \<times> LatencyController) option" where
  "generateCommand_latency fadd transformICOM dflt now stamp L point_cloud current_speed
      last_data_timestamp =
    (let (projected_state, L) = projectState now L current_speed last_data_timestamp;
         cloud = transformCloud point_cloud projected_state
     in case generateCommand fadd transformICOM dflt (toc L) cloud (speed projected_state) of
          None \<Rightarrow> None
        | Some cmd \<Rightarrow> Some (cmd, recordCommand_unstamped stamp L cmd))"

definition calculateFreePathLength_latency ::
  "real \<Rightarrow> LatencyController \<Rightarrow> Vector2f list \<Rightarrow> real \<Rightarrow> real \<Rightarrow> real \<times> LatencyController" where
  "calculateFreePathLength_latency now L point_cloud path_curvature last_data_timestamp =
    (let (projected_state, L) = projectState now L 0 last_data_timestamp;
         cloud = transformCloud point_cloud projected_state;
         fpl = calculateFreePathLength (toc L) cloud path_curvature
     in (fpl, L))"

section \<open>A concrete vehicle\<close>

text \<open>
  The vehicle and the controller parameters of the test scenarios: width 0.28, length 0.5,
  wheelbase 0.32, maximal speed 1, maximal acceleration 4, maximal curvature 1, control
  interval 0.05, margin 0.05, maximal clearance 0.5, curvature sampling interval 0.05.
\<close>

definition test_car :: Car where
  "test_car = \<lparr>dimensions = \<lparr>width = 0.28, length_dim = 0.5, wheelbase = 0.32\<rparr>,
               limits = \<lparr>max_speed = 1, max_acceleration = 4, max_curvature = 1\<rparr>\<rparr>"

definition test_controller :: Controller where
  "test_controller = \<lparr>car = test_car, control_interval = 0.05, margin = 0.05,
                      max_clearance = 0.5, curvature_sampling_interval = 0.05\<rparr>"

section \<open>Reference notions for the properties\<close>

text \<open>
  The curvatures the loop visits, in the order of the visits: \<open>visits next kmax k ks\<close> says
  that the loop started at \<open>k\<close> visits exactly the curvatures \<open>ks\<close> before it stops.
\<close>

inductive visits :: "(real \<Rightarrow> real) \<Rightarrow> real \<Rightarrow> real \<Rightarrow> real list \<Rightarrow> bool"
  for "next" :: "real \<Rightarrow> real" and kmax :: real where
  stop: "\<not> k \<le> kmax \<Longrightarrow> visits next kmax k []"
| step: "k \<le> kmax \<Longrightarrow> visits next kmax (next k) ks \<Longrightarrow> visits next kmax k (k # ks)"

code_pred visits .

text \<open>
  The straight-line formula as the specification words it: the candidates of the points
  with \<open>\<bar>py\<bar> < w/2 + m\<close> and \<open>px > 0\<close>, the minimum with the horizon term, and the
  clamp at zero.
\<close>

definition obstructing_points :: "Controller \<Rightarrow> Vector2f list \<Rightarrow> Vector2f list" where
  "obstructing_points C cloud =
    filter (\<lambda>p. \<bar>snd p\<bar> < width (dimensions (car C)) / 2 + margin C \<and> fst p > 0) cloud"

definition straight_candidates :: "Controller \<Rightarrow> Vector2f list \<Rightarrow> real list" where
  "straight_candidates C cloud =
    map (\<lambda>p. fst p - (margin C + (length_dim (dimensions (car C))
                                   + wheelbase (dimensions (car C))) / 2))
      (obstructing_points C cloud)"

definition claimed_straight_free_path_length :: "Controller \<Rightarrow> Vector2f list \<Rightarrow> real" where
  "claimed_straight_free_path_length C cloud =
    max 0 (Min (set ((10 - (margin C + (length_dim (dimensions (car C))
                                        + wheelbase (dimensions (car C))) / 2))
                     # straight_candidates C cloud)))"

text \<open>The least value a clearance contribution can take.\<close>

definition clearance_floor :: "Controller \<Rightarrow> real" where
  "clearance_floor C =
    min (max_clearance C)
      (min ((width (dimensions (car C)) - wheelbase (dimensions (car C))) / 2)
           (- (width (dimensions (car C)) / 2) - margin C))"

text \<open>The cloud reflected across the line \<open>y = 0\<close>.\<close>

definition reflect_cloud :: "Vector2f list \<Rightarrow> Vector2f list" where
  "reflect_cloud cloud = map (\<lambda>p. (fst p, - snd p)) cloud"

section \<open>Concrete instances\<close>

text \<open>
  Modelled from the spec: \<^verbatim>\<open>utils::transforms::transformICOM\<close> is not part of the sources
  at hand. The specification describes it as the map of a point of the body frame to the
  body frame after an advance by the arc angle \<open>phi\<close> on the circle of radius \<open>radius\<close>
  about \<open>(0, radius)\<close>, where the new pose is
  \<open>(radius sin phi, radius - radius cos phi, phi)\<close>. Every theorem below that mentions a
  transform holds for any function in its place; this one only closes the examples.
\<close>

definition transformICOM_spec :: ICOM where
  "transformICOM_spec x y phi radius =
    (cos phi * (x - radius * sin phi) + sin phi * (y - (radius - radius * cos phi)),
     - sin phi * (x - radius * sin phi) + cos phi * (y - (radius - radius * cos phi)))"

text \<open>A default candidate with every member zero, for the examples.\<close>

definition PathCandidate_zero :: PathCandidate where
  "PathCandidate_zero = \<lparr>PathCandidate.curvature = 0, free_path_length = 0, clearance = 0,
                          goal_distance = 0, score = 0\<rparr>"

text \<open>
  Controllers whose sampled curvatures are binary fractions, so that the binary32 sums of
  the loop are the exact ones and \<open>(+)\<close> is the addition of the program: the test
  controller with maximal curvature and sampling interval 0.5 (curvatures \<open>- 0.5, 0, 0.5\<close>),
  the same with a margin of 200, and the same with a sampling interval of 0.75 (curvatures
  \<open>- 0.5, 0.25\<close>).
\<close>

definition coarse_controller :: Controller where
  "coarse_controller =
    \<lparr>car = \<lparr>dimensions = \<lparr>width = 0.28, length_dim = 0.5, wheelbase = 0.32\<rparr>,
             limits = \<lparr>max_speed = 1, max_acceleration = 4, max_curvature = 0.5\<rparr>\<rparr>,
     control_interval = 0.05, margin = 0.05, max_clearance = 0.5,
     curvature_sampling_interval = 0.5\<rparr>"

definition wide_margin_controller :: Controller where
  "wide_margin_controller = coarse_controller\<lparr>margin := 200\<rparr>"

definition skew_controller :: Controller where
  "skew_controller = coarse_controller\<lparr>curvature_sampling_interval := 0.75\<rparr>"

text \<open>
  A compensator with latency 0.15 that owns the test controller and has issued nothing yet,
  and a stamped command of a given speed, curvature and time.
\<close>

definition fresh_compensator :: LatencyController where
  "fresh_compensator = \<lparr>latency = 0.15, command_history = [], toc = test_controller\<rparr>"

definition stamped :: "real \<Rightarrow> real \<Rightarrow> real \<Rightarrow> CommandStamped" where
  "stamped v k t = \<lparr>command = \<lparr>velocity = v, curvature = k\<rparr>, timestamp = t\<rparr>"

section \<open>Free path length: condition three\<close>

lemma arc_point_fst:
  "fst (arc_point C k r p st) = arc_point_conditions_1_2 C k r p (fst st)"
  by (simp add: arc_point_def arc_point_conditions_1_2_def Let_def split: option.splits)

lemma fold_arc_point_fst:
  "fst (fold (arc_point C k r) ps st) = fold (arc_point_conditions_1_2 C k r) ps (fst st)"
  by (induction ps arbitrary: st) (simp_all add: arc_point_fst)

text \<open>
  Claim C2. For every point cloud and every curvature \<open>k\<close> with \<open>\<bar>k\<bar> \<ge> 0.01\<close>, the block of
  condition three (outer rear strike) never changes the free path length that
  \<^const>\<open>calculateFreePathLength\<close> returns: the result is the one conditions one and two
  alone produce.
\<close>

theorem condition_three_no_effect:
  "\<bar>k\<bar> \<ge> 0.01 \<Longrightarrow>
   calculateFreePathLength C cloud k = free_path_length_conditions_1_2 C cloud k"
  by (simp add: calculateFreePathLength_def free_path_length_conditions_1_2_def Let_def
      fold_arc_point_fst)

theorem condition_three_no_effect_witness:
  "\<bar>1 :: real\<bar> \<ge> 0.01 \<and>
   calculateFreePathLength test_controller [(0.05, - 0.191)] 1
     = free_path_length_conditions_1_2 test_controller [(0.05, - 0.191)] 1"
  using condition_three_no_effect [of 1 test_controller "[(0.05, - 0.191)]"] by simp

section \<open>Free path length on a straight path\<close>

lemma straight_point_min:
  "straight_point C p f =
    (if \<bar>snd p\<bar> < width (dimensions (car C)) / 2 + margin C \<and> fst p > 0
     then min (fst p - (margin C + (length_dim (dimensions (car C)) + wheelbase (dimensions (car C))) / 2)) f
     else f)"
  by (simp add: straight_point_def Let_def min_def)

lemma fold_straight_point:
  "fold (straight_point C) ps f = Min (set (f # straight_candidates C ps))"
proof (induction ps arbitrary: f)
  case Nil
  show ?case by (simp add: straight_candidates_def obstructing_points_def)
next
  case (Cons p ps)
  show ?case
  proof (cases "\<bar>snd p\<bar> < width (dimensions (car C)) / 2 + margin C \<and> fst p > 0")
    case True
    let ?c = "fst p - (margin C + (length_dim (dimensions (car C)) + wheelbase (dimensions (car C))) / 2)"
    have sc: "straight_candidates C (p # ps) = ?c # straight_candidates C ps"
      using True by (simp add: straight_candidates_def obstructing_points_def)
    have "fold (straight_point C) (p # ps) f = Min (set (min ?c f # straight_candidates C ps))"
      using True by (simp add: Cons.IH straight_point_min)
    also have "\<dots> = Min (set (f # straight_candidates C (p # ps)))"
      unfolding sc
      by (cases "straight_candidates C ps = []") (simp_all add: min.commute min.left_commute min.assoc)
    finally show ?thesis .
  next
    case False
    have sc: "straight_candidates C (p # ps) = straight_candidates C ps"
      using False by (simp add: straight_candidates_def obstructing_points_def)
    have "straight_point C p f = f" by (simp only: straight_point_min False if_False)
    then show ?thesis by (simp add: sc Cons.IH)
  qed
qed

text \<open>
  Claim C3, amended. For every point cloud and every curvature \<open>k\<close> with \<open>\<bar>k\<bar> < 0.01\<close>,
  \<^const>\<open>calculateFreePathLength\<close> returns the minimum of \<open>10 - (m + (L + b) / 2)\<close> and of
  \<open>px - (m + (L + b) / 2)\<close> over the points with \<open>\<bar>py\<bar> < w / 2 + m\<close> and \<open>px > 0\<close>.
  The minimum is returned as it is: nothing clamps it at zero, and it is negative as soon
  as an obstructing point has \<open>px < m + (L + b) / 2\<close>.
\<close>

theorem straight_free_path_length_minimum: "\<bar>k\<bar> < 0.01 \<Longrightarrow>
  calculateFreePathLength C cloud k = Min (set (initial_free_path_length C # straight_candidates C cloud))"
  by (simp add: calculateFreePathLength_def Let_def fold_straight_point)

theorem straight_free_path_length_minimum_witness:
  "\<bar>0 :: real\<bar> < 0.01 \<and>
   calculateFreePathLength test_controller [(1, 0), (0.15, 0)] 0 = - 0.31 \<and>
   Min (set (initial_free_path_length test_controller # straight_candidates test_controller [(1, 0), (0.15, 0)])) = - 0.31"
proof -
  have "calculateFreePathLength test_controller [(1, 0), (0.15, 0)] 0
      = Min (set (initial_free_path_length test_controller # straight_candidates test_controller [(1, 0), (0.15, 0)]))"
    by (rule straight_free_path_length_minimum) simp
  moreover have "calculateFreePathLength test_controller [(1, 0), (0.15, 0)] 0 = - 0.31"
    by (simp add: calculateFreePathLength_def straight_point_def initial_free_path_length_def
        test_controller_def test_car_def Let_def)
  ultimately show ?thesis by simp
qed

text \<open>
  The claim as stated (with the clamp at zero) fails for the single point \<open>(0.15, 0)\<close>:
  the code returns \<open>0.15 - 0.46 = - 0.31\<close>, the clamped formula \<open>0\<close>.
\<close>

theorem straight_free_path_length_clamp_counterexample:
  "\<bar>0 :: real\<bar> < 0.01 \<and>
   calculateFreePathLength test_controller [(0.15, 0)] 0 = - 0.31 \<and>
   claimed_straight_free_path_length test_controller [(0.15, 0)] = 0"
  by (simp add: calculateFreePathLength_def straight_point_def initial_free_path_length_def
      test_controller_def test_car_def Let_def claimed_straight_free_path_length_def
      straight_candidates_def obstructing_points_def)

section \<open>Clearance\<close>

lemma cs_le: "clearance_straight_point C f p mc \<le> mc"
  by (simp add: clearance_straight_point_def Let_def)
lemma cs_ge: "lb \<le> (width (dimensions (car C)) - wheelbase (dimensions (car C))) / 2 \<Longrightarrow> lb \<le> mc \<Longrightarrow> lb \<le> clearance_straight_point C f p mc"
  by (auto simp add: clearance_straight_point_def Let_def field_simps)
lemma ca_le: "clearance_arc_point tf C k r f p mc \<le> mc"
  by (simp add: clearance_arc_point_def Let_def)
lemma abs_floor: "lb \<le> - a - m \<Longrightarrow> lb \<le> \<bar>x :: real\<bar> - a - m"
  by linarith

lemma ca_ge: "lb \<le> - (width (dimensions (car C)) / 2) - margin C \<Longrightarrow> lb \<le> mc \<Longrightarrow> lb \<le> clearance_arc_point tf C k r f p mc"
  by (simp add: clearance_arc_point_def Let_def abs_floor)

lemma fold_cs_le: "fold (clearance_straight_point C f) ps mc \<le> mc"
  by (induction ps arbitrary: mc) (auto intro: order_trans[OF _ cs_le])
lemma fold_ca_le: "fold (clearance_arc_point tf C k r f) ps mc \<le> mc"
  by (induction ps arbitrary: mc) (auto intro: order_trans[OF _ ca_le])
lemma fold_cs_ge: "lb \<le> (width (dimensions (car C)) - wheelbase (dimensions (car C))) / 2 \<Longrightarrow> lb \<le> mc \<Longrightarrow> lb \<le> fold (clearance_straight_point C f) ps mc"
  by (induction ps arbitrary: mc) (simp_all add: cs_ge)
lemma fold_ca_ge: "lb \<le> - (width (dimensions (car C)) / 2) - margin C \<Longrightarrow> lb \<le> mc \<Longrightarrow> lb \<le> fold (clearance_arc_point tf C k r f) ps mc"
  by (induction ps arbitrary: mc) (simp_all add: ca_ge)

lemma calculateClearance_bounds: "clearance_floor C \<le> calculateClearance tf C cloud k f \<and> calculateClearance tf C cloud k f \<le> max_clearance C"
proof -
  have a: "clearance_floor C \<le> (width (dimensions (car C)) - wheelbase (dimensions (car C))) / 2"
    and b: "clearance_floor C \<le> - (width (dimensions (car C)) / 2) - margin C"
    and c: "clearance_floor C \<le> max_clearance C"
    unfolding clearance_floor_def by (rule min.coboundedI2, rule min.cobounded1, rule min.coboundedI2, rule min.cobounded2, rule min.cobounded1)
  show ?thesis
    by (simp add: calculateClearance_def Let_def fold_cs_le fold_ca_le
        fold_cs_ge [OF a c] fold_ca_ge [OF b c])
qed

text \<open>
  Claim C4, amended. For every point cloud, every curvature and every free path length, the
  clearance returned by \<^const>\<open>calculateClearance\<close> is at most \<open>c_max\<close>: the search
  starts at \<open>c_max\<close> and only lowers the value. Nothing floors it at zero.
\<close>

theorem clearance_capped:
  "calculateClearance tf C cloud k f \<le> max_clearance C"
  using calculateClearance_bounds [of C tf cloud k f] by simp

text \<open>
  The claim as stated fails on an arc of curvature 1 for the single point \<open>(0, 0)\<close> and a
  free path length of 1: the point lies on the swept path at angle 0, and the clearance is
  \<open>\<bar>1 * cos 0 - 1\<bar> - 0.14 - 0.05 = - 0.19\<close>, whatever \<^verbatim>\<open>transformICOM\<close> returns.
\<close>

theorem clearance_floor_counterexample:
  "calculateClearance transformICOM_spec test_controller [(0, 0)] 1 1 = - 0.19 \<and>
   \<not> 0 \<le> calculateClearance transformICOM_spec test_controller [(0, 0)] 1 1"
  by (simp add: calculateClearance_def clearance_arc_point_def test_controller_def test_car_def
      Let_def atan2_def)

section \<open>Control speed\<close>

lemma calculateControlSpeed_range:
  assumes "0 \<le> max_speed (limits (car C))"
  shows "0 \<le> calculateControlSpeed C v l \<and> calculateControlSpeed C v l \<le> max_speed (limits (car C))"
  using assms unfolding calculateControlSpeed_def Let_def
  by (auto split: if_splits)

text \<open>
  Claim C6, amended. For every free path length and every current speed \<open>v\<close> with
  \<open>0 \<le> v \<le> v_max + 0.05\<close>, the speed returned by \<^const>\<open>calculateControlSpeed\<close> differs
  from \<open>v\<close> by at most \<open>a_max * dt + 0.05\<close> (the tolerance is the width of the snap to
  \<open>v_max\<close>). The vehicle limits are taken non-negative.
\<close>

theorem control_speed_rate_limited:
  assumes "0 \<le> max_speed (limits (car C))"
    and "0 \<le> max_acceleration (limits (car C)) * control_interval C"
    and "0 \<le> v" and "v \<le> max_speed (limits (car C)) + 0.05"
  shows "\<bar>calculateControlSpeed C v l - v\<bar>
         \<le> max_acceleration (limits (car C)) * control_interval C + 0.05"
  using assms unfolding calculateControlSpeed_def Let_def
  by (auto split: if_splits)

theorem control_speed_rate_limited_witness:
  "(0 :: real) \<le> 0.5 \<and> calculateControlSpeed test_controller 0.5 0.54 = 0.7 \<and>
   \<bar>calculateControlSpeed test_controller 0.5 0.54 - 0.5\<bar>
     \<le> max_acceleration (limits (car test_controller)) * control_interval test_controller + 0.05"
proof -
  have "calculateControlSpeed test_controller 0.5 0.54 = 0.7"
    by (simp add: calculateControlSpeed_def test_controller_def test_car_def Let_def power2_eq_square)
  moreover have "\<bar>calculateControlSpeed test_controller 0.5 0.54 - 0.5\<bar>
     \<le> max_acceleration (limits (car test_controller)) * control_interval test_controller + 0.05"
    by (rule control_speed_rate_limited) (simp_all add: test_controller_def test_car_def)
  ultimately show ?thesis by simp
qed

text \<open>
  The claim as stated (every input speed) fails for the current speed 5 with \<open>v_max = 1\<close>:
  the result is clamped to 1, a change of 4 where \<open>a_max * dt = 0.2\<close>.
\<close>

theorem control_speed_rate_counterexample:
  "calculateControlSpeed test_controller 5 0 = 1 \<and>
   \<not> \<bar>calculateControlSpeed test_controller 5 0 - 5\<bar>
       \<le> max_acceleration (limits (car test_controller)) * control_interval test_controller + 1"
  by (simp add: calculateControlSpeed_def test_controller_def test_car_def Let_def)

section \<open>The sampling loop of evaluatePaths\<close>

text \<open>
  When the loop visits the curvatures \<open>ks\<close> it returns, and its result is the fold of the
  selection step over the candidates of \<open>ks\<close>, in the order of the visits.
\<close>

lemma evaluatePaths_loop_visits:
  assumes "visits next kmax k ks"
  shows "evaluatePaths_loop cand next kmax k best = Some (fold select_path (map cand ks) best)"
  using assms
proof (induction arbitrary: best rule: visits.induct)
  case (stop k)
  then show ?case by (subst evaluatePaths_loop.simps) simp
next
  case (step k ks)
  show ?case
    by (subst evaluatePaths_loop.simps) (simp add: step.hyps(1) step.IH)
qed

lemma visits_unique:
  assumes "visits next kmax k ks" and "visits next kmax k ks'"
  shows "ks = ks'"
  using assms
proof (induction arbitrary: ks' rule: visits.induct)
  case (stop k)
  from stop.prems stop.hyps show ?case by (cases rule: visits.cases) simp_all
next
  case (step k ks)
  from step.prems step.hyps(1) obtain ks0 where "ks' = k # ks0" "visits next kmax (next k) ks0"
    by (cases rule: visits.cases) simp_all
  with step.IH show ?case by simp
qed

text \<open>
  The visited curvatures increase and lie between the first one and the maximal curvature,
  when every step from a curvature in that range goes upward.
\<close>

lemma visits_increasing:
  assumes "visits next kmax k ks"
    and "\<And>x. lo \<le> x \<Longrightarrow> x \<le> kmax \<Longrightarrow> x < next x"
    and "lo \<le> k"
  shows "sorted_wrt (<) ks \<and> (\<forall>x \<in> set ks. k \<le> x \<and> x \<le> kmax)"
  using assms(1,3)
proof (induction rule: visits.induct)
  case (stop k)
  show ?case by simp
next
  case (step k ks)
  have lt: "k < next k" using assms(2) step.prems step.hyps(1) by simp
  then have "lo \<le> next k" using step.prems by simp
  from step.IH [OF this] have ih: "sorted_wrt (<) ks" "\<forall>x \<in> set ks. next k \<le> x \<and> x \<le> kmax"
    by simp_all
  have "\<forall>x \<in> set ks. k < x" using ih(2) lt by force
  moreover have "\<forall>x \<in> set ks. k \<le> x \<and> x \<le> kmax" using ih(2) lt by force
  ultimately show ?case using ih(1) step.hyps(1) by simp
qed

text \<open>
  The loop stops when every step from a curvature in the range advances by at least a
  fixed positive amount.
\<close>

lemma visits_exist:
  assumes d: "0 < d"
    and adv: "\<And>x. lo \<le> x \<Longrightarrow> x \<le> kmax \<Longrightarrow> x + d \<le> next x"
    and lo: "lo \<le> k"
  shows "\<exists>ks. visits next kmax k ks"
  using lo
proof (induction n \<equiv> "nat \<lceil>(kmax - k) / d\<rceil>" arbitrary: k rule: less_induct)
  case less
  show ?case
  proof (cases "k \<le> kmax")
    case False
    then show ?thesis by (blast intro: visits.stop)
  next
    case True
    have step: "k + d \<le> next k" using adv less.prems True by simp
    then have lo': "lo \<le> next k" using less.prems d by simp
    have "kmax - next k \<le> (kmax - k) - d" using step by simp
    then have "(kmax - next k) / d \<le> ((kmax - k) - d) / d"
      using d by (simp add: divide_right_mono)
    also have "\<dots> = (kmax - k) / d - 1" using d by (simp add: diff_divide_distrib)
    finally have "(kmax - next k) / d \<le> (kmax - k) / d - 1" .
    then have "\<lceil>(kmax - next k) / d\<rceil> \<le> \<lceil>(kmax - k) / d - 1\<rceil>"
      by (rule ceiling_mono)
    then have le: "\<lceil>(kmax - next k) / d\<rceil> \<le> \<lceil>(kmax - k) / d\<rceil> - 1" by simp
    show ?thesis
    proof (cases "next k \<le> kmax")
      case False
      then have "visits next kmax (next k) []" by (rule visits.stop)
      with True show ?thesis by (blast intro: visits.step)
    next
      case nk: True
      then have "0 \<le> (kmax - next k) / d" using d by simp
      then have "0 \<le> \<lceil>(kmax - next k) / d\<rceil>" by simp
      with le have "nat \<lceil>(kmax - next k) / d\<rceil> < nat \<lceil>(kmax - k) / d\<rceil>" by linarith
      from less.hyps [OF this lo'] obtain ks where "visits next kmax (next k) ks" by blast
      with True show ?thesis by (blast intro: visits.step)
    qed
  qed
qed

lemma visits_advance:
  assumes d: "0 < d"
    and adv: "\<And>x. lo \<le> x \<Longrightarrow> x \<le> kmax \<Longrightarrow> x + d \<le> next x"
    and lo: "lo \<le> k"
  shows "\<exists>ks. visits next kmax k ks \<and> sorted_wrt (<) ks \<and> (\<forall>x \<in> set ks. k \<le> x \<and> x \<le> kmax)"
proof -
  from visits_exist [OF assms] obtain ks where ks: "visits next kmax k ks" by blast
  have "\<And>x. lo \<le> x \<Longrightarrow> x \<le> kmax \<Longrightarrow> x < next x"
  proof -
    fix x assume "lo \<le> x" "x \<le> kmax"
    from adv [OF this] d show "x < next x" by simp
  qed
  from visits_increasing [OF ks this lo] ks show ?thesis by blast
qed

text \<open>
  The selection step keeps the first candidate of greatest score, when that score exceeds
  the score of the initial candidate, and the initial candidate otherwise.
\<close>

lemma fold_select_path_snoc:
  "fold select_path (cs @ [c]) b = select_path c (fold select_path cs b)"
  by simp

lemma fold_select_path_cases:
  "(fold select_path cs b = b \<and> (\<forall>j < length cs. score (cs ! j) \<le> score b)) \<or>
   (\<exists>i < length cs. fold select_path cs b = cs ! i \<and> score b < score (cs ! i) \<and>
       (\<forall>j < length cs. score (cs ! j) \<le> score (cs ! i)) \<and>
       (\<forall>j < i. score (cs ! j) < score (cs ! i)))"
proof (induction cs rule: rev_induct)
  case Nil
  show ?case by simp
next
  case (snoc c cs)
  let ?r = "fold select_path cs b"
  show ?case
  proof (cases "score c > score ?r")
    case True
    then have r: "fold select_path (cs @ [c]) b = c" by (simp add: select_path_def)
    have below: "\<forall>j < length cs. score (cs ! j) \<le> score ?r" and b: "score b \<le> score ?r"
      using snoc.IH by auto
    have "length cs < length (cs @ [c]) \<and> fold select_path (cs @ [c]) b = (cs @ [c]) ! length cs
        \<and> score b < score ((cs @ [c]) ! length cs)
        \<and> (\<forall>j < length (cs @ [c]). score ((cs @ [c]) ! j) \<le> score ((cs @ [c]) ! length cs))
        \<and> (\<forall>j < length cs. score ((cs @ [c]) ! j) < score ((cs @ [c]) ! length cs))"
      using True below b r by (auto simp: nth_append less_Suc_eq)
    then show ?thesis by blast
  next
    case False
    then have r: "fold select_path (cs @ [c]) b = ?r" by (simp add: select_path_def)
    from snoc.IH show ?thesis
    proof
      assume a: "?r = b \<and> (\<forall>j < length cs. score (cs ! j) \<le> score b)"
      then have "fold select_path (cs @ [c]) b = b \<and>
          (\<forall>j < length (cs @ [c]). score ((cs @ [c]) ! j) \<le> score b)"
        using False r by (auto simp: nth_append less_Suc_eq)
      then show ?thesis by blast
    next
      assume "\<exists>i < length cs. ?r = cs ! i \<and> score b < score (cs ! i) \<and>
       (\<forall>j < length cs. score (cs ! j) \<le> score (cs ! i)) \<and>
       (\<forall>j < i. score (cs ! j) < score (cs ! i))"
      then obtain i where i: "i < length cs" "?r = cs ! i" "score b < score (cs ! i)"
        "\<forall>j < length cs. score (cs ! j) \<le> score (cs ! i)"
        "\<forall>j < i. score (cs ! j) < score (cs ! i)" by blast
      have "i < length (cs @ [c]) \<and> fold select_path (cs @ [c]) b = (cs @ [c]) ! i
        \<and> score b < score ((cs @ [c]) ! i)
        \<and> (\<forall>j < length (cs @ [c]). score ((cs @ [c]) ! j) \<le> score ((cs @ [c]) ! i))
        \<and> (\<forall>j < i. score ((cs @ [c]) ! j) < score ((cs @ [c]) ! i))"
        using i False r by (auto simp: nth_append less_Suc_eq)
      then show ?thesis by blast
    qed
  qed
qed

lemma score_sentinel: "score (PathCandidate_of_score dflt s) = s"
  by (simp add: PathCandidate_of_score_def)

lemma curvature_path_candidate: "PathCandidate.curvature (path_candidate tf C cloud k) = k"
  by (simp add: path_candidate_def Let_def)


lemma select_path_cases:
  fixes ks :: "real list"
  assumes srt: "sorted_wrt (<) ks"
  shows "(fold select_path (map cand ks) b = b \<and> (\<forall>k \<in> set ks. score (cand k) \<le> score b)) \<or>
         (\<exists>k \<in> set ks.
            fold select_path (map cand ks) b = cand k \<and> score b < score (cand k) \<and>
            (\<forall>k' \<in> set ks. score (cand k') \<le> score (cand k)) \<and>
            (\<forall>k' \<in> set ks. k' < k \<longrightarrow> score (cand k') < score (cand k)))"
proof -
  let ?r = "fold select_path (map cand ks) b"
  from fold_select_path_cases [of "map cand ks" b]
  show ?thesis
  proof
    assume a: "?r = b \<and> (\<forall>j < length (map cand ks). score (map cand ks ! j) \<le> score b)"
    have "\<forall>k \<in> set ks. score (cand k) \<le> score b"
    proof
      fix k assume "k \<in> set ks"
      then obtain j where "j < length ks" "ks ! j = k" by (auto simp: in_set_conv_nth)
      with a show "score (cand k) \<le> score b" by auto
    qed
    with a show ?thesis by simp
  next
    assume "\<exists>i < length (map cand ks). ?r = map cand ks ! i \<and> score b < score (map cand ks ! i) \<and>
       (\<forall>j < length (map cand ks). score (map cand ks ! j) \<le> score (map cand ks ! i)) \<and>
       (\<forall>j < i. score (map cand ks ! j) < score (map cand ks ! i))"
    then obtain i where i: "i < length ks" "?r = cand (ks ! i)" "score b < score (cand (ks ! i))"
       "\<forall>j < length ks. score (cand (ks ! j)) \<le> score (cand (ks ! i))"
       "\<forall>j < i. score (cand (ks ! j)) < score (cand (ks ! i))"
      by auto
    have in_set: "ks ! i \<in> set ks" using i(1) by simp
    have all: "\<forall>k' \<in> set ks. score (cand k') \<le> score (cand (ks ! i))"
    proof
      fix k' assume "k' \<in> set ks"
      then obtain j where "j < length ks" "ks ! j = k'" by (auto simp: in_set_conv_nth)
      with i(4) show "score (cand k') \<le> score (cand (ks ! i))" by auto
    qed
    have first: "\<forall>k' \<in> set ks. k' < ks ! i \<longrightarrow> score (cand k') < score (cand (ks ! i))"
    proof (intro ballI impI)
      fix k' assume "k' \<in> set ks" and lt: "k' < ks ! i"
      then obtain j where j: "j < length ks" "ks ! j = k'" by (auto simp: in_set_conv_nth)
      have "j < i"
      proof (rule ccontr)
        assume "\<not> j < i"
        then have "i = j \<or> i < j" by auto
        then have "ks ! i \<le> ks ! j"
          using sorted_wrt_nth_less [OF srt, of i j] j(1) by auto
        with lt j(2) show False by simp
      qed
      with i(5) j show "score (cand k') < score (cand (ks ! i))" by auto
    qed
    show ?thesis
      by (rule disjI2, rule bexI [OF _ in_set], intro conjI) (fact i(2) i(3) all first)+
  qed
qed

lemma select_path_unique_best:
  assumes k: "k \<in> set ks" and above: "score b < score (cand k)"
    and uniq: "\<forall>k' \<in> set ks. k' \<noteq> k \<longrightarrow> score (cand k') < score (cand k)"
  shows "fold select_path (map cand ks) b = cand k"
proof -
  let ?r = "fold select_path (map cand ks) b"
  from k obtain jk where jk: "jk < length ks" "ks ! jk = k" by (auto simp: in_set_conv_nth)
  from fold_select_path_cases [of "map cand ks" b]
  show ?thesis
  proof
    assume "?r = b \<and> (\<forall>j < length (map cand ks). score (map cand ks ! j) \<le> score b)"
    then have "score (cand (ks ! jk)) \<le> score b" using jk(1) by auto
    with above jk(2) show ?thesis by simp
  next
    assume "\<exists>i < length (map cand ks). ?r = map cand ks ! i \<and> score b < score (map cand ks ! i) \<and>
       (\<forall>j < length (map cand ks). score (map cand ks ! j) \<le> score (map cand ks ! i)) \<and>
       (\<forall>j < i. score (map cand ks ! j) < score (map cand ks ! i))"
    then obtain i where i: "i < length ks" "?r = cand (ks ! i)"
       "\<forall>j < length ks. score (cand (ks ! j)) \<le> score (cand (ks ! i))"
      by auto
    have "ks ! i = k"
    proof (rule ccontr)
      assume ne: "ks ! i \<noteq> k"
      have "ks ! i \<in> set ks" using i(1) by simp
      with uniq ne have "score (cand (ks ! i)) < score (cand k)" by blast
      moreover from i(3) jk have "score (cand k) \<le> score (cand (ks ! i))" by blast
      ultimately show False by simp
    qed
    with i(2) show ?thesis by simp
  qed
qed

text \<open>The result of \<^const>\<open>evaluatePaths_with\<close>, by cases.\<close>

lemma evaluatePaths_with_visits:
  assumes "visits (\<lambda>k. fadd k (curvature_sampling_interval C)) (max_curvature (limits (car C)))
             (- 1 * max_curvature (limits (car C))) ks"
  shows "evaluatePaths_with cand fadd dflt C =
           Some (fold select_path (map cand ks) (PathCandidate_of_score dflt (- 100)))"
  unfolding evaluatePaths_with_def by (rule evaluatePaths_loop_visits [OF assms])

lemma evaluatePaths_with_cases:
  assumes d: "0 < d"
    and adv: "\<And>k. - max_curvature (limits (car C)) \<le> k \<Longrightarrow> k \<le> max_curvature (limits (car C))
                \<Longrightarrow> k + d \<le> fadd k (curvature_sampling_interval C)"
  shows "\<exists>ks. visits (\<lambda>k. fadd k (curvature_sampling_interval C)) (max_curvature (limits (car C)))
                 (- 1 * max_curvature (limits (car C))) ks \<and>
          sorted_wrt (<) ks \<and>
          (\<forall>k \<in> set ks. - max_curvature (limits (car C)) \<le> k \<and> k \<le> max_curvature (limits (car C))) \<and>
          ((evaluatePaths_with cand fadd dflt C = Some (PathCandidate_of_score dflt (- 100)) \<and>
            (\<forall>k \<in> set ks. score (cand k) \<le> - 100)) \<or>
           (\<exists>k \<in> set ks.
              evaluatePaths_with cand fadd dflt C = Some (cand k) \<and> - 100 < score (cand k) \<and>
              (\<forall>k' \<in> set ks. score (cand k') \<le> score (cand k)) \<and>
              (\<forall>k' \<in> set ks. k' < k \<longrightarrow> score (cand k') < score (cand k))))"
proof -
  let ?kmax = "max_curvature (limits (car C))"
  let ?next = "\<lambda>k. fadd k (curvature_sampling_interval C)"
  have lo: "- ?kmax \<le> - 1 * ?kmax" by simp
  from visits_advance [of d "- ?kmax" ?kmax ?next "- 1 * ?kmax", OF d adv lo]
  obtain ks where ks: "visits ?next ?kmax (- 1 * ?kmax) ks" "sorted_wrt (<) ks"
      "\<forall>x \<in> set ks. - 1 * ?kmax \<le> x \<and> x \<le> ?kmax"
    by blast
  have b: "\<forall>k \<in> set ks. - ?kmax \<le> k \<and> k \<le> ?kmax" using ks(3) by simp
  have ev: "evaluatePaths_with cand fadd dflt C =
      Some (fold select_path (map cand ks) (PathCandidate_of_score dflt (- 100)))"
    using ks(1) by (rule evaluatePaths_with_visits)
  from select_path_cases [OF ks(2), of cand "PathCandidate_of_score dflt (- 100)"]
  have "(evaluatePaths_with cand fadd dflt C = Some (PathCandidate_of_score dflt (- 100)) \<and>
            (\<forall>k \<in> set ks. score (cand k) \<le> - 100)) \<or>
           (\<exists>k \<in> set ks.
              evaluatePaths_with cand fadd dflt C = Some (cand k) \<and> - 100 < score (cand k) \<and>
              (\<forall>k' \<in> set ks. score (cand k') \<le> score (cand k)) \<and>
              (\<forall>k' \<in> set ks. k' < k \<longrightarrow> score (cand k') < score (cand k)))"
    unfolding ev score_sentinel by simp
  with ks(1,2) b show ?thesis by blast
qed

text \<open>
  Claim C5, amended. The loop of \<^const>\<open>evaluatePaths_with\<close> (of \<^const>\<open>evaluatePaths\<close>, when
  the body is \<^const>\<open>path_candidate\<close>) returns when each addition of the sampling interval
  to a curvature within the limits advances by at least a fixed positive amount. The
  candidates are those of the curvatures \<open>ks\<close> that the loop visits: from \<open>- k_max\<close>
  upward, each the sum of the one before and the sampling interval as \<open>fadd\<close> computes it,
  while they are at most \<open>k_max\<close>. The selection is by strict comparison of scores. When
  some visited candidate scores above \<open>- 100\<close>, the result is a visited candidate of
  greatest score, and every candidate of smaller curvature scores strictly less (exact ties
  keep the first seen). When none does, the result is the sentinel.
\<close>

theorem evaluatePaths_selection:
  assumes "0 < d"
    and "\<And>k. - max_curvature (limits (car C)) \<le> k \<Longrightarrow> k \<le> max_curvature (limits (car C))
                \<Longrightarrow> k + d \<le> fadd k (curvature_sampling_interval C)"
  shows "\<exists>ks best.
    visits (\<lambda>k. fadd k (curvature_sampling_interval C)) (max_curvature (limits (car C)))
       (- 1 * max_curvature (limits (car C))) ks \<and>
    sorted_wrt (<) ks \<and>
    (\<forall>k \<in> set ks. - max_curvature (limits (car C)) \<le> k \<and> k \<le> max_curvature (limits (car C))) \<and>
    evaluatePaths_with candidate fadd dflt C = Some best \<and>
    (if \<exists>k \<in> set ks. - 100 < score (candidate k)
     then \<exists>k \<in> set ks. best = candidate k \<and>
            (\<forall>k' \<in> set ks. score (candidate k') \<le> score best) \<and>
            (\<forall>k' \<in> set ks. k' < k \<longrightarrow> score (candidate k') < score best)
     else best = PathCandidate_of_score dflt (- 100))"
proof -
  from evaluatePaths_with_cases [of d C fadd candidate dflt, OF assms]
  obtain ks where ks: "visits (\<lambda>k. fadd k (curvature_sampling_interval C))
        (max_curvature (limits (car C))) (- 1 * max_curvature (limits (car C))) ks"
      "sorted_wrt (<) ks"
      "\<forall>k \<in> set ks. - max_curvature (limits (car C)) \<le> k \<and> k \<le> max_curvature (limits (car C))"
    and c: "(evaluatePaths_with candidate fadd dflt C = Some (PathCandidate_of_score dflt (- 100)) \<and>
            (\<forall>k \<in> set ks. score (candidate k) \<le> - 100)) \<or>
           (\<exists>k \<in> set ks.
              evaluatePaths_with candidate fadd dflt C = Some (candidate k) \<and>
              - 100 < score (candidate k) \<and>
              (\<forall>k' \<in> set ks. score (candidate k') \<le> score (candidate k)) \<and>
              (\<forall>k' \<in> set ks. k' < k \<longrightarrow> score (candidate k') < score (candidate k)))"
    by blast
  from c have "\<exists>best. evaluatePaths_with candidate fadd dflt C = Some best \<and>
    (if \<exists>k \<in> set ks. - 100 < score (candidate k)
     then \<exists>k \<in> set ks. best = candidate k \<and>
            (\<forall>k' \<in> set ks. score (candidate k') \<le> score best) \<and>
            (\<forall>k' \<in> set ks. k' < k \<longrightarrow> score (candidate k') < score best)
     else best = PathCandidate_of_score dflt (- 100))"
    by (elim disjE conjE bexE) (force, force)
  with ks show ?thesis by blast
qed

text \<open>The visited curvatures of the controllers of the examples.\<close>

lemma visits_step_eq:
  "k \<le> kmax \<Longrightarrow> next k = k' \<Longrightarrow> visits next kmax k' ks \<Longrightarrow> visits next kmax k (k # ks)"
  by (auto intro: visits.step)

lemma half_visits: "visits (\<lambda>k. k + 1 / 2) (1 / 2) (- (1 / 2)) [- (1 / 2), 0, 1 / 2]"
proof -
  have "visits (\<lambda>k. k + 1 / 2) (1 / 2) (1 :: real) []" by (rule visits.stop) simp
  then have "visits (\<lambda>k. k + 1 / 2) (1 / 2) (1 / 2) [1 / 2]"
    by (rule visits_step_eq [rotated 2]) simp_all
  then have "visits (\<lambda>k. k + 1 / 2) (1 / 2) 0 [0, 1 / 2]"
    by (rule visits_step_eq [rotated 2]) simp_all
  then show ?thesis
    by (rule visits_step_eq [rotated 2]) simp_all
qed

lemma coarse_visits:
  "visits (\<lambda>k. k + curvature_sampling_interval coarse_controller)
     (max_curvature (limits (car coarse_controller)))
     (- 1 * max_curvature (limits (car coarse_controller))) [- 0.5, 0, 0.5]"
  using half_visits by (simp add: coarse_controller_def)

lemma wide_margin_visits:
  "visits (\<lambda>k. k + curvature_sampling_interval wide_margin_controller)
     (max_curvature (limits (car wide_margin_controller)))
     (- 1 * max_curvature (limits (car wide_margin_controller))) [- 0.5, 0, 0.5]"
  using half_visits by (simp add: wide_margin_controller_def coarse_controller_def)

lemma skew_visits:
  "visits (\<lambda>k. k + curvature_sampling_interval skew_controller)
     (max_curvature (limits (car skew_controller)))
     (- 1 * max_curvature (limits (car skew_controller))) [- 0.5, 0.25]"
proof -
  have "visits (\<lambda>k. k + 3 / 4) (1 / 2) (1 :: real) []" by (rule visits.stop) simp
  then have "visits (\<lambda>k. k + 3 / 4) (1 / 2) (1 / 4) [1 / 4]"
    by (rule visits_step_eq [rotated 2]) simp_all
  then have "visits (\<lambda>k. k + 3 / 4) (1 / 2) (- (1 / 2)) [- (1 / 2), 1 / 4]"
    by (rule visits_step_eq [rotated 2]) simp_all
  then show ?thesis by (simp add: skew_controller_def coarse_controller_def)
qed

theorem evaluatePaths_selection_witness:
  "\<exists>ks best.
    visits (\<lambda>k. k + curvature_sampling_interval coarse_controller)
       (max_curvature (limits (car coarse_controller)))
       (- 1 * max_curvature (limits (car coarse_controller))) ks \<and>
    sorted_wrt (<) ks \<and>
    (\<forall>k \<in> set ks. - max_curvature (limits (car coarse_controller)) \<le> k
                   \<and> k \<le> max_curvature (limits (car coarse_controller))) \<and>
    evaluatePaths (+) transformICOM_spec PathCandidate_zero coarse_controller [(1, 0.18)] = Some best \<and>
    (if \<exists>k \<in> set ks. - 100 < score (path_candidate transformICOM_spec coarse_controller [(1, 0.18)] k)
     then \<exists>k \<in> set ks. best = path_candidate transformICOM_spec coarse_controller [(1, 0.18)] k \<and>
            (\<forall>k' \<in> set ks.
               score (path_candidate transformICOM_spec coarse_controller [(1, 0.18)] k') \<le> score best) \<and>
            (\<forall>k' \<in> set ks.
               k' < k \<longrightarrow> score (path_candidate transformICOM_spec coarse_controller [(1, 0.18)] k') < score best)
     else best = PathCandidate_of_score PathCandidate_zero (- 100))"
  unfolding evaluatePaths_def
  by (rule evaluatePaths_selection [of "1 / 2" coarse_controller "(+)"])
     (simp_all add: coarse_controller_def)

lemma norm2_nonneg: "0 \<le> norm2 v"
  by (simp add: norm2_def)

lemma calculateDistanceToGoal_nonneg: "0 \<le> calculateDistanceToGoal C k"
  by (simp add: calculateDistanceToGoal_def Let_def norm2_nonneg)

lemma score_path_candidate:
  "score (path_candidate tf C cloud k) =
     calculateFreePathLength C cloud k
     + 8 * calculateClearance tf C cloud k (calculateFreePathLength C cloud k)
     - calculateDistanceToGoal C k / 2"
  by (simp add: path_candidate_def Let_def)

lemma calculateFreePathLength_empty: "calculateFreePathLength C [] k = initial_free_path_length C"
  by (simp add: calculateFreePathLength_def Let_def)

lemma calculateClearance_empty: "calculateClearance tf C [] k f = max_clearance C"
  by (simp add: calculateClearance_def Let_def)


lemma wide_scores:
  "score (path_candidate tf wide_margin_controller [] k) < - 100"
proof -
  have "score (path_candidate tf wide_margin_controller [] k)
      \<le> initial_free_path_length wide_margin_controller + 8 * max_clearance wide_margin_controller"
    using calculateDistanceToGoal_nonneg [of wide_margin_controller k]
    by (simp add: score_path_candidate calculateFreePathLength_empty calculateClearance_empty)
  also have "\<dots> < - 100"
    by (simp add: initial_free_path_length_def wide_margin_controller_def coarse_controller_def)
  finally show ?thesis .
qed

text \<open>
  The claim as stated (the sentinel is always replaced) fails for the controller with a
  margin of 200 and the empty cloud. The loop visits the curvatures \<open>- 0.5, 0, 0.5\<close>, every
  score is at most \<open>10 - 200.41 + 8 * 0.5 < - 100\<close>, so the sentinel is returned, and it is
  none of the candidates of the loop.
\<close>

theorem evaluatePaths_sentinel_counterexample:
  "visits (\<lambda>k. k + curvature_sampling_interval wide_margin_controller)
     (max_curvature (limits (car wide_margin_controller)))
     (- 1 * max_curvature (limits (car wide_margin_controller))) [- 0.5, 0, 0.5] \<and>
   evaluatePaths (+) transformICOM_spec PathCandidate_zero wide_margin_controller []
     = Some (PathCandidate_of_score PathCandidate_zero (- 100)) \<and>
   PathCandidate_of_score PathCandidate_zero (- 100)
     \<notin> path_candidate transformICOM_spec wide_margin_controller [] ` set [- 0.5, 0, 0.5]"
proof (intro conjI)
  let ?cand = "path_candidate transformICOM_spec wide_margin_controller []"
  let ?b = "PathCandidate_of_score PathCandidate_zero (- 100)"
  show v: "visits (\<lambda>k. k + curvature_sampling_interval wide_margin_controller)
     (max_curvature (limits (car wide_margin_controller)))
     (- 1 * max_curvature (limits (car wide_margin_controller))) [- 0.5, 0, 0.5]"
    by (rule wide_margin_visits)
  have sel: "select_path (?cand k) ?b = ?b" for k
    using wide_scores [of transformICOM_spec k] by (simp add: select_path_def score_sentinel)
  have "evaluatePaths (+) transformICOM_spec PathCandidate_zero wide_margin_controller []
      = Some (fold select_path (map ?cand [- 0.5, 0, 0.5]) ?b)"
    unfolding evaluatePaths_def using v by (rule evaluatePaths_with_visits)
  also have "fold select_path (map ?cand [- 0.5, 0, 0.5]) ?b = ?b"
    by (simp only: list.map fold_simps sel)
  finally show "evaluatePaths (+) transformICOM_spec PathCandidate_zero wide_margin_controller []
     = Some ?b" .
  show "?b \<notin> ?cand ` set [- 0.5, 0, 0.5]"
  proof
    assume "?b \<in> ?cand ` set [- 0.5, 0, 0.5]"
    then obtain k where "?b = ?cand k" by blast
    then have "score (?cand k) = - 100" by (metis score_sentinel)
    with wide_scores [of transformICOM_spec k] show False by simp
  qed
qed

section \<open>The command of the sampler\<close>

text \<open>Comparisons and arithmetic on speeds that are numbers, and on NaN.\<close>

lemma f_le_Num: "f_le (Num a) (Num b) \<longleftrightarrow> a \<le> b"
  by (auto simp: f_le_def)

lemma f_minus_Num: "f_minus (Num a) (Num b) = Num (a - b)"
  by (simp add: f_minus_def)

lemma f_divide_Num: "b \<noteq> 0 \<Longrightarrow> f_divide (Num a) (Num b) = Num (a / b)"
  by simp

lemma if_Num: "(if c then Num a else Num b) = Num (if c then a else b)"
  by simp

lemma calculateControlSpeed_float_NaN: "calculateControlSpeed_float C NaN l = NaN"
  by (simp add: calculateControlSpeed_float_def Let_def f_le_def f_minus_def)

lemma clamps_range:
  assumes "0 \<le> vmax" "x \<noteq> NaN"
  shows "\<exists>v. (let c = (if f_less x (Num 0) then Num 0 else x)
              in if f_less (Num vmax) c then Num vmax else c) = Num v \<and> 0 \<le> v \<and> v \<le> vmax"
  using assms by (cases x) (auto simp: Let_def)

lemma f_plus_Num_NaN: "f_plus x (Num c) = NaN \<longleftrightarrow> x = NaN"
  by (cases x) simp_all

lemma f_minus_Num_NaN: "f_minus x (Num c) = NaN \<longleftrightarrow> x = NaN"
  by (cases x) (simp_all add: f_minus_def)

text \<open>
  A speed that is not NaN stays so through the four cases, and the two clamps then bring it
  into the range, also when it is infinite.
\<close>

lemma if_not_NaN: "a \<noteq> NaN \<Longrightarrow> b \<noteq> NaN \<Longrightarrow> (if c then a else b) \<noteq> NaN"
  by simp

lemma calculateControlSpeed_float_range:
  assumes v: "0 \<le> max_speed (limits (car C))" and s: "s \<noteq> NaN"
  shows "\<exists>v. calculateControlSpeed_float C s l = Num v \<and> 0 \<le> v \<and> v \<le> max_speed (limits (car C))"
proof -
  let ?vmax = "max_speed (limits (car C))"
  let ?amax = "max_acceleration (limits (car C))"
  let ?dt = "control_interval C"
  define s1 where "s1 = (if f_le (Num (?vmax - 0.05)) s \<and> f_le s (Num (?vmax + 0.05))
            then Num ?vmax else s)"
  define x where "x =
           (if f_less s1 (Num ?vmax) \<and>
               f_le (f_plus (f_plus (f_times s1 (Num ?dt)) (Num ((?amax * ?dt) * ?dt / 2)))
                       (f_divide (f_times (f_plus s1 (Num (?amax * ?dt)))
                                          (f_plus s1 (Num (?amax * ?dt))))
                                 (Num (2 * ?amax))))
                    l
            then f_plus s1 (Num (?amax * ?dt))
            else if f_eq s1 (Num ?vmax) \<and>
               f_le (f_plus (f_times s1 (Num ?dt))
                            (f_divide (Num (?vmax * ?vmax)) (Num (2 * ?amax))))
                    l
            then s1
            else if f_less l
                      (f_divide (f_times s1 s1) (Num (2 * ?amax)))
            then f_minus s1 (Num (?amax * ?dt))
            else f_minus s1 (Num (?amax * ?dt)))"
  have s1: "s1 \<noteq> NaN" unfolding s1_def by (rule if_not_NaN) (simp_all add: s)
  have p: "f_plus s1 (Num (?amax * ?dt)) \<noteq> NaN" by (simp add: f_plus_Num_NaN s1)
  have m: "f_minus s1 (Num (?amax * ?dt)) \<noteq> NaN" by (simp add: f_minus_Num_NaN s1)
  have x: "x \<noteq> NaN"
    unfolding x_def by (intro if_not_NaN p m s1)
  have "calculateControlSpeed_float C s l =
      (let c = (if f_less x (Num 0) then Num 0 else x)
       in if f_less (Num ?vmax) c then Num ?vmax else c)"
    unfolding calculateControlSpeed_float_def x_def s1_def Let_def by (rule refl)
  with clamps_range [OF v x] show ?thesis by simp
qed

text \<open>
  On a speed and a free path length that are numbers \<^const>\<open>calculateControlSpeed_float\<close>
  is \<^const>\<open>calculateControlSpeed\<close>, when the maximal acceleration is not zero.
\<close>

lemma calculateControlSpeed_float_Num:
  assumes a: "max_acceleration (limits (car C)) \<noteq> 0"
  shows "calculateControlSpeed_float C (Num v) (Num l) = Num (calculateControlSpeed C v l)"
proof -
  have a2: "2 * max_acceleration (limits (car C)) \<noteq> 0" using a by simp
  show ?thesis
    unfolding calculateControlSpeed_float_def calculateControlSpeed_def Let_def
    by (simp only: f_le_Num f_less.simps f_eq.simps f_plus.simps f_times.simps f_minus_Num
        f_divide_Num [OF a2] if_Num power2_eq_square float.inject)
qed

lemma generateCommand_float_Num:
  assumes "max_acceleration (limits (car C)) \<noteq> 0"
  shows "generateCommand_float fadd tf dflt C cloud (Num v) =
    map_option (\<lambda>cmd. \<lparr>velocity_float = Num (velocity cmd), curvature_float = Command.curvature cmd\<rparr>)
      (generateCommand fadd tf dflt C cloud v)"
  by (cases "evaluatePaths fadd tf dflt C cloud")
     (simp_all add: generateCommand_float_def generateCommand_def generateCommand_with_def
        evaluatePaths_def command_for_def calculateControlSpeed_float_Num [OF assms])

text \<open>
  Claim C1, amended. For every point cloud and every current speed that is not NaN (the
  infinite ones included), the command of \<^const>\<open>generateCommand_float\<close> has a velocity that
  is a number with \<open>0 \<le> velocity \<le> v_max\<close>, and \<open>\<bar>curvature\<bar> \<le> k_max\<close>. The maximal speed
  is taken non-negative; each addition of the sampling interval to a curvature within the
  limits advances by at least a fixed positive amount (the loop then returns); the curvature
  that the constructor leaves in the sentinel is within the limit.
\<close>

theorem generateCommand_in_limits:
  assumes "current_speed \<noteq> NaN"
    and "0 \<le> max_speed (limits (car C))"
    and "0 < d"
    and "\<And>k. - max_curvature (limits (car C)) \<le> k \<Longrightarrow> k \<le> max_curvature (limits (car C))
                \<Longrightarrow> k + d \<le> fadd k (curvature_sampling_interval C)"
    and "\<bar>PathCandidate.curvature dflt\<bar> \<le> max_curvature (limits (car C))"
  shows "\<exists>cmd v. generateCommand_float fadd tf dflt C cloud current_speed = Some cmd \<and>
     velocity_float cmd = Num v \<and> 0 \<le> v \<and> v \<le> max_speed (limits (car C)) \<and>
     \<bar>curvature_float cmd\<bar> \<le> max_curvature (limits (car C))"
proof -
  let ?cand = "path_candidate tf C cloud"
  from evaluatePaths_with_cases [of d C fadd ?cand dflt, OF assms(3,4)]
  obtain ks where b: "\<forall>k \<in> set ks. - max_curvature (limits (car C)) \<le> k \<and> k \<le> max_curvature (limits (car C))"
    and c: "(evaluatePaths_with ?cand fadd dflt C = Some (PathCandidate_of_score dflt (- 100)) \<and>
            (\<forall>k \<in> set ks. score (?cand k) \<le> - 100)) \<or>
           (\<exists>k \<in> set ks.
              evaluatePaths_with ?cand fadd dflt C = Some (?cand k) \<and> - 100 < score (?cand k) \<and>
              (\<forall>k' \<in> set ks. score (?cand k') \<le> score (?cand k)) \<and>
              (\<forall>k' \<in> set ks. k' < k \<longrightarrow> score (?cand k') < score (?cand k)))"
    by blast
  from c obtain p where p: "evaluatePaths fadd tf dflt C cloud = Some p"
    and pc: "\<bar>PathCandidate.curvature p\<bar> \<le> max_curvature (limits (car C))"
  proof
    assume "evaluatePaths_with ?cand fadd dflt C = Some (PathCandidate_of_score dflt (- 100)) \<and>
            (\<forall>k \<in> set ks. score (?cand k) \<le> - 100)"
    then show ?thesis using that assms(5) by (simp add: PathCandidate_of_score_def evaluatePaths_def)
  next
    assume "\<exists>k \<in> set ks.
              evaluatePaths_with ?cand fadd dflt C = Some (?cand k) \<and> - 100 < score (?cand k) \<and>
              (\<forall>k' \<in> set ks. score (?cand k') \<le> score (?cand k)) \<and>
              (\<forall>k' \<in> set ks. k' < k \<longrightarrow> score (?cand k') < score (?cand k))"
    then obtain k where k: "k \<in> set ks" "evaluatePaths_with ?cand fadd dflt C = Some (?cand k)"
      by blast
    from b k(1) have "- max_curvature (limits (car C)) \<le> k" "k \<le> max_curvature (limits (car C))"
      by auto
    then have "\<bar>k\<bar> \<le> max_curvature (limits (car C))" by linarith
    then show ?thesis
      using that k(2) by (simp add: curvature_path_candidate evaluatePaths_def)
  qed
  from calculateControlSpeed_float_range [OF assms(2,1), of "Num (free_path_length p)"]
  obtain v where v: "calculateControlSpeed_float C current_speed (Num (free_path_length p)) = Num v"
      "0 \<le> v" "v \<le> max_speed (limits (car C))"
    by blast
  show ?thesis
    using p pc v by (simp add: generateCommand_float_def)
qed

theorem generateCommand_in_limits_witness:
  "\<exists>cmd v. generateCommand_float (+) transformICOM_spec PathCandidate_zero coarse_controller
       [(1, 0.18)] PInf = Some cmd \<and>
     velocity_float cmd = Num v \<and> 0 \<le> v \<and> v \<le> max_speed (limits (car coarse_controller)) \<and>
     \<bar>curvature_float cmd\<bar> \<le> max_curvature (limits (car coarse_controller))"
  by (rule generateCommand_in_limits [of PInf coarse_controller "1 / 2" "(+)"])
     (simp_all add: coarse_controller_def PathCandidate_zero_def)

text \<open>
  The claim as stated (every current speed) fails for the speed NaN: every comparison of
  \<^const>\<open>calculateControlSpeed_float\<close> is then false, neither clamp applies, and the velocity
  of the command is NaN, which is not between \<open>0\<close> and \<open>v_max\<close>.
\<close>

theorem generateCommand_NaN_counterexample:
  "map_option velocity_float
     (generateCommand_float (+) transformICOM_spec PathCandidate_zero coarse_controller
        [(1, 0.18)] NaN) = Some NaN \<and>
   \<not> f_le (Num 0) NaN \<and> \<not> f_le NaN (Num (max_speed (limits (car coarse_controller))))"
proof -
  have "\<exists>p. evaluatePaths (+) transformICOM_spec PathCandidate_zero coarse_controller [(1, 0.18)]
      = Some p"
    unfolding evaluatePaths_def
    by (rule exI, rule evaluatePaths_with_visits, rule coarse_visits)
  then show ?thesis
    by (auto simp: generateCommand_float_def calculateControlSpeed_float_NaN f_le_def)
qed

section \<open>Reflection of the cloud\<close>

text \<open>
  Reflecting the cloud and negating the curvature leaves the free path length, the
  clearance, the goal distance and the score of a candidate unchanged.
\<close>

lemma straight_point_reflect:
  "straight_point C (fst p, - snd p) = straight_point C p"
  by (rule ext) (simp add: straight_point_def)

lemma arc_point_reflect:
  "k \<noteq> 0 \<Longrightarrow> arc_point C (- k) r (fst p, - snd p) = arc_point C k r p"
  by (rule ext, cases p; cases "k < 0") (simp_all add: arc_point_def)

lemma clearance_straight_point_reflect:
  "clearance_straight_point C f (fst p, - snd p) = clearance_straight_point C f p"
  by (rule ext) (simp add: clearance_straight_point_def)

lemma clearance_arc_point_reflect:
  "k \<noteq> 0 \<Longrightarrow>
   clearance_arc_point tf C (- k) r f (fst p, - snd p) = clearance_arc_point tf C k r f p"
  by (rule ext, cases p; cases "k < 0") (simp_all add: clearance_arc_point_def)

lemma calculateFreePathLength_reflect:
  "calculateFreePathLength C (reflect_cloud cloud) (- k) = calculateFreePathLength C cloud k"
proof (cases "\<bar>k\<bar> < 0.01")
  case True
  then show ?thesis
    by (simp add: calculateFreePathLength_def reflect_cloud_def fold_map comp_def
        straight_point_reflect)
next
  case False
  then have k: "k \<noteq> 0" by auto
  show ?thesis
    using False
    by (simp add: calculateFreePathLength_def reflect_cloud_def fold_map comp_def
        arc_point_reflect [OF k] Let_def)
qed

lemma calculateClearance_reflect:
  "calculateClearance tf C (reflect_cloud cloud) (- k) f = calculateClearance tf C cloud k f"
proof (cases "\<bar>k\<bar> < 0.01")
  case True
  then show ?thesis
    by (simp add: calculateClearance_def reflect_cloud_def fold_map comp_def
        clearance_straight_point_reflect)
next
  case False
  then have k: "k \<noteq> 0" by auto
  show ?thesis
    using False
    by (simp add: calculateClearance_def reflect_cloud_def fold_map comp_def
        clearance_arc_point_reflect [OF k] Let_def)
qed

lemma calculateDistanceToGoal_reflect:
  "calculateDistanceToGoal C (- k) = calculateDistanceToGoal C k"
  by (simp add: calculateDistanceToGoal_def Let_def norm2_def)
    (intro impI power2_commute)

lemma path_candidate_reflect:
  "path_candidate tf C (reflect_cloud cloud) (- k)
     = (path_candidate tf C cloud k)\<lparr>PathCandidate.curvature := - k\<rparr>"
  by (simp add: path_candidate_def Let_def calculateFreePathLength_reflect
      calculateClearance_reflect calculateDistanceToGoal_reflect)


text \<open>
  Claim C7, amended. Let the loop visit the curvatures \<open>ks\<close>, let \<open>ks\<close> be symmetric about
  zero, and let the body of the loop for the reflected cloud, \<open>candidate'\<close>, mirror the body
  for the cloud, \<open>candidate\<close>: at \<open>- k\<close> it builds the candidate that \<open>candidate\<close> builds at
  \<open>k\<close>, with the curvature negated (\<^const>\<open>path_candidate\<close> does so for every cloud, as shown
  above). If a single visited curvature attains the greatest score, above \<open>- 100\<close>, then the
  command has that curvature, and the command for the reflected cloud has the negated
  curvature and the same velocity.
\<close>

theorem reflection_symmetry_unique_best:
  assumes vis: "visits (\<lambda>k. fadd k (curvature_sampling_interval C)) (max_curvature (limits (car C)))
                  (- 1 * max_curvature (limits (car C))) ks"
    and sym: "\<forall>k \<in> set ks. - k \<in> set ks"
    and curv: "\<forall>k \<in> set ks. PathCandidate.curvature (candidate k) = k"
    and mirror: "\<forall>k \<in> set ks. candidate' (- k) = (candidate k)\<lparr>PathCandidate.curvature := - k\<rparr>"
    and k: "k \<in> set ks"
    and above: "- 100 < score (candidate k)"
    and uniq: "\<forall>k' \<in> set ks. k' \<noteq> k \<longrightarrow> score (candidate k') < score (candidate k)"
  shows "\<exists>cmd. generateCommand_with candidate fadd dflt C v = Some cmd \<and>
     Command.curvature cmd = k \<and>
     generateCommand_with candidate' fadd dflt C v
       = Some \<lparr>velocity = velocity cmd, curvature = - Command.curvature cmd\<rparr>"
proof -
  let ?b = "PathCandidate_of_score dflt (- 100)"
  have refl: "candidate' k' = (candidate (- k'))\<lparr>PathCandidate.curvature := k'\<rparr>"
    if "k' \<in> set ks" for k'
  proof -
    from that sym have "- k' \<in> set ks" by blast
    with mirror have "candidate' (- (- k')) = (candidate (- k'))\<lparr>PathCandidate.curvature := - (- k')\<rparr>"
      by blast
    then show ?thesis by simp
  qed
  have "fold select_path (map candidate ks) ?b = candidate k"
    using k above uniq by (intro select_path_unique_best) (simp_all add: score_sentinel)
  then have e: "evaluatePaths_with candidate fadd dflt C = Some (candidate k)"
    using evaluatePaths_with_visits [of fadd C ks candidate dflt] vis by simp
  have k': "- k \<in> set ks" using sym k by blast
  have ck': "candidate' (- k) = (candidate k)\<lparr>PathCandidate.curvature := - k\<rparr>"
    using mirror k by blast
  have above': "score ?b < score (candidate' (- k))"
    using above by (simp add: ck' score_sentinel)
  have uniq': "\<forall>k' \<in> set ks. k' \<noteq> - k \<longrightarrow> score (candidate' k') < score (candidate' (- k))"
  proof (intro ballI impI)
    fix k' assume a: "k' \<in> set ks" "k' \<noteq> - k"
    have "- k' \<in> set ks" using sym a(1) by blast
    moreover have "- k' \<noteq> k" using a(2) by auto
    ultimately have "score (candidate (- k')) < score (candidate k)" using uniq by blast
    then show "score (candidate' k') < score (candidate' (- k))" by (simp add: refl [OF a(1)] ck')
  qed
  have "fold select_path (map candidate' ks) ?b = candidate' (- k)"
    using k' above' uniq' by (rule select_path_unique_best)
  then have e': "evaluatePaths_with candidate' fadd dflt C = Some (candidate' (- k))"
    using evaluatePaths_with_visits [of fadd C ks candidate' dflt] vis by simp
  have ck: "PathCandidate.curvature (candidate k) = k" using curv k by blast
  show ?thesis
    by (simp add: generateCommand_with_def command_for_def e e' ck' ck)
qed

text \<open>
  Bounds on the goal distance: the projected position lies within the distance travelled in
  one control interval of the origin.
\<close>

lemma calculateDistanceToGoal_straight:
  "\<bar>k\<bar> < 0.01 \<Longrightarrow>
   calculateDistanceToGoal C k = \<bar>10 - max_speed (limits (car C)) * control_interval C\<bar>"
  by (simp add: calculateDistanceToGoal_def Let_def norm2_def)


lemma one_minus_cos_le: "\<bar>1 - cos t\<bar> \<le> \<bar>t :: real\<bar>"
proof -
  have "cos t = cos (2 * (t / 2))" by simp
  also have "\<dots> = 1 - 2 * (sin (t / 2))\<^sup>2" by (rule cos_double_sin)
  finally have e: "1 - cos t = 2 * (sin (t / 2))\<^sup>2" by simp
  have s1: "\<bar>sin (t / 2)\<bar> \<le> 1" by (rule abs_sin_le_one)
  have s2: "\<bar>sin (t / 2)\<bar> \<le> \<bar>t / 2\<bar>" by (rule abs_sin_x_le_abs_x)
  have "(sin (t / 2))\<^sup>2 = \<bar>sin (t / 2)\<bar> * \<bar>sin (t / 2)\<bar>" by (simp add: power2_eq_square)
  also have "\<dots> \<le> \<bar>sin (t / 2)\<bar> * 1" by (intro mult_left_mono s1) simp
  also have "\<dots> \<le> \<bar>t / 2\<bar>" using s2 by simp
  finally have "2 * (sin (t / 2))\<^sup>2 \<le> \<bar>t\<bar>" by simp
  moreover have "0 \<le> 2 * (sin (t / 2))\<^sup>2" by simp
  ultimately show ?thesis unfolding e by simp
qed

lemma calculateDistanceToGoal_arc_bounds:
  assumes k: "\<not> \<bar>k\<bar> < 0.01"
    and s: "0 \<le> max_speed (limits (car C)) * control_interval C"
  shows "10 - max_speed (limits (car C)) * control_interval C \<le> calculateDistanceToGoal C k"
    and "calculateDistanceToGoal C k \<le> 10 + 2 * (max_speed (limits (car C)) * control_interval C)"
proof -
  let ?s = "max_speed (limits (car C)) * control_interval C"
  let ?x = "1 / k * sin (?s / (1 / k))"
  let ?y = "1 / k - 1 / k * cos (?s / (1 / k))"
  from k have k0: "k \<noteq> 0" by auto
  have d: "calculateDistanceToGoal C k = sqrt ((10 - ?x)\<^sup>2 + (0 - ?y)\<^sup>2)"
    using k by (simp add: calculateDistanceToGoal_def Let_def norm2_def)
  have c: "\<bar>?s * k\<bar> / \<bar>k\<bar> = \<bar>?s\<bar>"
    using k0 by (simp only: abs_mult nonzero_mult_div_cancel_right abs_eq_0 not_False_eq_True)
  have "\<bar>?x\<bar> = \<bar>sin (?s * k)\<bar> / \<bar>k\<bar>" by (simp add: abs_mult abs_divide)
  also have "\<dots> \<le> \<bar>?s * k\<bar> / \<bar>k\<bar>"
    by (intro divide_right_mono abs_sin_x_le_abs_x) simp
  also have "\<dots> = ?s" using s by (simp only: c abs_of_nonneg)
  finally have x: "\<bar>?x\<bar> \<le> ?s" .
  have "?y = 1 / k * (1 - cos (?s * k))" by (simp add: right_diff_distrib)
  then have "\<bar>?y\<bar> = \<bar>1 - cos (?s * k)\<bar> / \<bar>k\<bar>" by (simp add: abs_mult abs_divide)
  also have "\<dots> \<le> \<bar>?s * k\<bar> / \<bar>k\<bar>"
    by (intro divide_right_mono one_minus_cos_le) simp
  also have "\<dots> = ?s" using s by (simp only: c abs_of_nonneg)
  finally have y: "\<bar>?y\<bar> \<le> ?s" .
  have "10 - ?s \<le> \<bar>10 - ?x\<bar>" using x by linarith
  also have "\<dots> \<le> sqrt ((10 - ?x)\<^sup>2 + (0 - ?y)\<^sup>2)" by (rule real_sqrt_ge_abs1)
  finally show "10 - ?s \<le> calculateDistanceToGoal C k" by (simp only: d)
  have "sqrt ((10 - ?x)\<^sup>2 + (0 - ?y)\<^sup>2) \<le> \<bar>10 - ?x\<bar> + \<bar>0 - ?y\<bar>"
    by (rule sqrt_sum_squares_le_sum_abs)
  also have "\<dots> \<le> 10 + 2 * ?s" using x y by linarith
  finally show "calculateDistanceToGoal C k \<le> 10 + 2 * ?s" by (simp only: d)
qed

text \<open>Points that an arc does not reach, and points outside the band of the clearance.\<close>

lemma arc_point_culled:
  assumes "max (outside_front_corner_radius C r) (outside_rear_corner_radius C r)
           < sqrt ((fst p)\<^sup>2 + (r - (if k < 0 then snd p * (- 1) else snd p))\<^sup>2)"
  shows "arc_point C k r p st = st"
  using assms by (cases "k < 0") (simp_all add: arc_point_def Let_def)

lemma clearance_arc_point_culled:
  assumes "r + width (dimensions (car C)) / 2 + margin C + max_clearance C
           < sqrt ((fst p)\<^sup>2 + (r - (if k < 0 then snd p * (- 1) else snd p))\<^sup>2)"
  shows "clearance_arc_point tf C k r f p mc = mc"
  using assms by (cases "k < 0") (simp_all add: clearance_arc_point_def Let_def)


text \<open>
  A point ahead that lies between the inner rear axle radius and the outer front corner
  radius of an arc stops the car within a quarter of the circle.
\<close>

lemma arc_point_blocked:
  assumes k: "\<not> k < 0"
    and x: "0 < fst p" and a: "0 < r - snd p" and r: "0 < r"
    and ira: "0 \<le> inside_rear_axle_radius C r"
    and lo: "inside_rear_axle_radius C r \<le> sqrt ((fst p)\<^sup>2 + (r - snd p)\<^sup>2)"
    and hi: "sqrt ((fst p)\<^sup>2 + (r - snd p)\<^sup>2) < outside_front_corner_radius C r"
    and front: "0 \<le> margin C + (length_dim (dimensions (car C)) + wheelbase (dimensions (car C))) / 2"
  shows "fst (arc_point C k r p st) < r * (pi / 2)"
proof -
  let ?pr = "sqrt ((fst p)\<^sup>2 + (r - snd p)\<^sup>2)"
  let ?th = "atan2 (fst p) (r - snd p)"
  let ?a0 = "margin C + (length_dim (dimensions (car C)) + wheelbase (dimensions (car C))) / 2"
  have th: "?th = arctan (fst p / (r - snd p))" using a by (simp add: atan2_def)
  have thpos: "0 < ?th" using x a by (simp add: th zero_less_arctan_iff)
  have thub: "?th < pi / 2" unfolding th by (rule arctan_ubound)
  have "\<bar>fst p\<bar> \<le> ?pr" by (rule real_sqrt_ge_abs1)
  with x have prpos: "0 < ?pr" by linarith
  then have prne: "?pr \<noteq> 0" by (rule less_imp_neq [THEN not_sym])
  have c1: "\<not> ?pr < inside_rear_axle_radius C r" using lo by simp
  have c2: "\<not> ?pr > max (outside_front_corner_radius C r) (outside_rear_corner_radius C r)"
    using hi by simp
  have "\<exists>psi. 0 \<le> psi \<and>
     fst (arc_point C k r p st) = (if r * (?th - psi) < fst st then r * (?th - psi) else fst st)"
  proof (cases "?pr < inside_front_corner_radius C r")
    case True
    have q: "- 1 \<le> inside_rear_axle_radius C r / ?pr" "inside_rear_axle_radius C r / ?pr \<le> 1"
    proof -
      have "0 \<le> inside_rear_axle_radius C r / ?pr"
        using ira prpos by (intro divide_nonneg_pos)
      then show "- 1 \<le> inside_rear_axle_radius C r / ?pr" by linarith
      show "inside_rear_axle_radius C r / ?pr \<le> 1"
        using lo prpos by (simp only: divide_le_eq_1_pos)
    qed
    then have ac: "acos_div (inside_rear_axle_radius C r) ?pr
        = Some (arccos (inside_rear_axle_radius C r / ?pr))"
      using prne unfolding acos_div_def by (simp only: if_False if_True simp_thms)
    have nn: "0 \<le> arccos (inside_rear_axle_radius C r / ?pr)"
      using q by (intro arccos_lbound) simp_all
    have "fst (arc_point C k r p st) =
        (if r * (?th - arccos (inside_rear_axle_radius C r / ?pr)) < fst st
         then r * (?th - arccos (inside_rear_axle_radius C r / ?pr)) else fst st)"
      unfolding arc_point_def Let_def
      by (simp only: k c1 c2 lo True thpos ac if_False if_True simp_thms option.case fst_conv
          prod.collapse)
    with nn show ?thesis by blast
  next
    case False
    then have ifc: "inside_front_corner_radius C r \<le> ?pr" by simp
    have "?a0 \<le> inside_front_corner_radius C r"
      unfolding inside_front_corner_radius_def by (rule real_sqrt_sum_squares_ge2)
    with ifc have "?a0 \<le> ?pr" by simp
    then have q1: "?a0 / ?pr \<le> 1"
      using prpos by (simp only: divide_le_eq_1_pos)
    have q0: "0 \<le> ?a0 / ?pr"
      using front prpos by (intro divide_nonneg_pos)
    then have q: "- 1 \<le> ?a0 / ?pr" "?a0 / ?pr \<le> 1"
      using q1 by linarith+
    then have as: "asin_div ?a0 ?pr = Some (arcsin (?a0 / ?pr))"
      using prne unfolding asin_div_def by (simp only: if_False if_True simp_thms)
    have nn: "0 \<le> arcsin (?a0 / ?pr)"
      using q0 q1 by (intro arcsin_nonneg) simp
    have "fst (arc_point C k r p st) =
        (if r * (?th - arcsin (?a0 / ?pr)) < fst st
         then r * (?th - arcsin (?a0 / ?pr)) else fst st)"
      unfolding arc_point_def Let_def
      by (simp only: k c1 c2 False ifc hi thpos as if_False if_True simp_thms option.case fst_conv
          prod.collapse)
    with nn show ?thesis by blast
  qed
  then obtain psi where psi: "0 \<le> psi"
    "fst (arc_point C k r p st) = (if r * (?th - psi) < fst st then r * (?th - psi) else fst st)"
    by blast
  have "fst (arc_point C k r p st) \<le> r * (?th - psi)" using psi(2) by simp
  also have "\<dots> \<le> r * ?th" using psi(1) r by simp
  also have "\<dots> < r * (pi / 2)" using thub r by simp
  finally show ?thesis .
qed

text \<open>The candidates do not depend on the sampling interval.\<close>

lemma path_candidate_interval:
  "path_candidate tf (C\<lparr>curvature_sampling_interval := x\<rparr>) cloud k = path_candidate tf C cloud k"
proof -
  have 1: "straight_point (C\<lparr>curvature_sampling_interval := x\<rparr>) = straight_point C"
    by (intro ext) (simp add: straight_point_def)
  have 2: "arc_point (C\<lparr>curvature_sampling_interval := x\<rparr>) = arc_point C"
    by (intro ext) (simp add: arc_point_def inside_rear_axle_radius_def
        inside_front_corner_radius_def outside_front_corner_radius_def
        outside_rear_corner_radius_def outside_rear_axle_radius_def Let_def
        split del: if_split cong: if_cong)
  have 3: "clearance_straight_point (C\<lparr>curvature_sampling_interval := x\<rparr>) = clearance_straight_point C"
    by (intro ext) (simp add: clearance_straight_point_def)
  have 4: "clearance_arc_point tf (C\<lparr>curvature_sampling_interval := x\<rparr>) = clearance_arc_point tf C"
    by (intro ext) (simp add: clearance_arc_point_def Let_def split del: if_split cong: if_cong)
  have 5: "calculateDistanceToGoal (C\<lparr>curvature_sampling_interval := x\<rparr>) = calculateDistanceToGoal C"
    by (intro ext) (simp add: calculateDistanceToGoal_def Let_def)
  have 6: "calculateFreePathLength (C\<lparr>curvature_sampling_interval := x\<rparr>) = calculateFreePathLength C"
    by (intro ext) (simp add: calculateFreePathLength_def initial_free_path_length_def 1 2 Let_def)
  have 7: "calculateClearance tf (C\<lparr>curvature_sampling_interval := x\<rparr>) = calculateClearance tf C"
    by (intro ext) (simp add: calculateClearance_def 3 4 Let_def)
  show ?thesis by (simp add: path_candidate_def 5 6 7 Let_def)
qed

text \<open>
  The candidates of the controllers of the examples for the single point \<open>(1.5, 0.45)\<close>,
  ahead of the car on its left. The arcs to the right pass it at a distance beyond the
  maximal clearance; the straight path passes it with a clearance of 0.24; the arcs to the
  left are blocked by it.
\<close>

lemma coarse_initial: "initial_free_path_length coarse_controller = 9.54"
  by (simp add: initial_free_path_length_def coarse_controller_def)

lemma coarse_goal_distance:
  assumes "\<not> \<bar>k\<bar> < 0.01"
  shows "9.95 \<le> calculateDistanceToGoal coarse_controller k"
    and "calculateDistanceToGoal coarse_controller k \<le> 10.1"
  using calculateDistanceToGoal_arc_bounds [OF assms, of coarse_controller]
  by (simp_all add: coarse_controller_def)

lemma coarse_goal_distance_zero: "calculateDistanceToGoal coarse_controller 0 = 9.95"
  by (simp add: calculateDistanceToGoal_straight coarse_controller_def)

lemma coarse_clearance_le: "calculateClearance tf coarse_controller cloud k f \<le> 0.5"
  using calculateClearance_bounds [of coarse_controller tf cloud k f]
  by (simp add: coarse_controller_def)

lemma left_point_right_arc_free_path_length:
  "calculateFreePathLength coarse_controller [(1.5, 0.45)] (- 0.5) = 9.54"
proof -
  have "max (outside_front_corner_radius coarse_controller 2) (outside_rear_corner_radius coarse_controller 2)
      < sqrt ((fst (1.5 :: real, 0.45 :: real))\<^sup>2
          + (2 - (if (- 0.5 :: real) < 0 then snd (1.5 :: real, 0.45 :: real) * (- 1)
                  else snd (1.5 :: real, 0.45 :: real)))\<^sup>2)"
    by (simp add: outside_front_corner_radius_def outside_rear_corner_radius_def
        coarse_controller_def power2_eq_square)
  from arc_point_culled [OF this] show ?thesis
    by (simp add: calculateFreePathLength_def Let_def coarse_initial)
qed

lemma clearance_arc_point_far:
  assumes "(r + width (dimensions (car C)) / 2 + margin C + max_clearance C)\<^sup>2
           < (fst p)\<^sup>2 + (r - (if k < 0 then snd p * (- 1) else snd p))\<^sup>2"
  shows "clearance_arc_point tf C k r f p mc = mc"
  by (rule clearance_arc_point_culled, rule real_less_rsqrt, rule assms)

lemma left_point_right_arc_clearance:
  "calculateClearance tf coarse_controller [(1.5, 0.45)] (- 0.5) f = 0.5"
proof -
  have "(2 + width (dimensions (car coarse_controller)) / 2 + margin coarse_controller
          + max_clearance coarse_controller)\<^sup>2
      < (fst (1.5 :: real, 0.45 :: real))\<^sup>2
          + (2 - (if (- 0.5 :: real) < 0 then snd (1.5 :: real, 0.45 :: real) * (- 1)
                  else snd (1.5 :: real, 0.45 :: real)))\<^sup>2"
    by (simp add: coarse_controller_def power2_eq_square)
  from clearance_arc_point_far [OF this] show ?thesis
    by (simp add: calculateClearance_def Let_def) (simp add: coarse_controller_def)
qed

lemma left_point_right_arc_score:
  "8.49 \<le> score (path_candidate tf coarse_controller [(1.5, 0.45)] (- 0.5))"
  unfolding score_path_candidate left_point_right_arc_free_path_length
    left_point_right_arc_clearance
  using coarse_goal_distance(2) [of "- 0.5"] by simp

lemma left_point_straight_score:
  "score (path_candidate tf coarse_controller [(1.5, 0.45)] 0) = 6.485"
  by (simp add: score_path_candidate calculateFreePathLength_def straight_point_def
      calculateClearance_def clearance_straight_point_def coarse_initial
      coarse_goal_distance_zero)
     (simp add: coarse_controller_def)

lemma left_point_left_arc_free_path_length:
  "calculateFreePathLength coarse_controller [(1.5, 0.45)] 0.5 < 4"
proof -
  have lo: "inside_rear_axle_radius coarse_controller 2
       \<le> sqrt ((fst (1.5 :: real, 0.45 :: real))\<^sup>2 + (2 - snd (1.5 :: real, 0.45 :: real))\<^sup>2)"
    unfolding inside_rear_axle_radius_def
    by (rule real_le_rsqrt) (simp add: coarse_controller_def power2_eq_square)
  have hi: "sqrt ((fst (1.5 :: real, 0.45 :: real))\<^sup>2 + (2 - snd (1.5 :: real, 0.45 :: real))\<^sup>2)
       < outside_front_corner_radius coarse_controller 2"
    by (simp add: outside_front_corner_radius_def coarse_controller_def power2_eq_square)
  have "fst (arc_point coarse_controller 0.5 2 (1.5, 0.45) (9.54, 0)) < 2 * (pi / 2)"
    by (rule arc_point_blocked [OF _ _ _ _ _ lo hi])
       (simp_all add: inside_rear_axle_radius_def coarse_controller_def)
  also have "\<dots> < 4" using pi_less_4 by simp
  finally show ?thesis
    by (simp add: calculateFreePathLength_def Let_def coarse_initial)
qed

lemma left_point_left_arc_score:
  "score (path_candidate tf coarse_controller [(1.5, 0.45)] 0.5) < 3.025"
  using coarse_goal_distance(1) [of "0.5"] left_point_left_arc_free_path_length
    coarse_clearance_le [of tf "[(1.5, 0.45)]" "0.5"
      "calculateFreePathLength coarse_controller [(1.5, 0.45)] 0.5"]
  by (simp add: score_path_candidate)

text \<open>
  The instance: the controller with the curvatures \<open>- 0.5, 0, 0.5\<close> and the point
  \<open>(1.5, 0.45)\<close>. The arc to the right scores at least 8.49, the straight path 6.485 and
  the arc to the left less than 3.025, so the command turns right with the curvature
  \<open>- 0.5\<close>; for the reflected cloud it turns left with the curvature \<open>0.5\<close>.
\<close>

theorem reflection_symmetry_unique_best_witness:
  "\<exists>cmd. generateCommand (+) transformICOM_spec PathCandidate_zero coarse_controller
            [(1.5, 0.45)] 0.5 = Some cmd \<and>
     Command.curvature cmd = - 0.5 \<and>
     generateCommand (+) transformICOM_spec PathCandidate_zero coarse_controller
            (reflect_cloud [(1.5, 0.45)]) 0.5
       = Some \<lparr>velocity = velocity cmd, curvature = - Command.curvature cmd\<rparr>"
  unfolding generateCommand_def
proof (rule reflection_symmetry_unique_best [where ks = "[- 0.5, 0, 0.5]"])
  let ?cand = "path_candidate transformICOM_spec coarse_controller [(1.5, 0.45)]"
  show "visits (\<lambda>k. k + curvature_sampling_interval coarse_controller)
     (max_curvature (limits (car coarse_controller)))
     (- 1 * max_curvature (limits (car coarse_controller))) [- 0.5, 0, 0.5]"
    by (rule coarse_visits)
  show "\<forall>k \<in> set [- 0.5, 0, 0.5 :: real]. - k \<in> set [- 0.5, 0, 0.5]" by simp
  show "\<forall>k \<in> set [- 0.5, 0, 0.5]. PathCandidate.curvature (?cand k) = k"
    by (simp add: curvature_path_candidate)
  show "\<forall>k \<in> set [- 0.5, 0, 0.5].
      path_candidate transformICOM_spec coarse_controller (reflect_cloud [(1.5, 0.45)]) (- k)
        = (?cand k)\<lparr>PathCandidate.curvature := - k\<rparr>"
    by (intro ballI path_candidate_reflect)
  show "(- 0.5 :: real) \<in> set [- 0.5, 0, 0.5]" by simp
  have m: "8.49 \<le> score (?cand (- 0.5))" by (rule left_point_right_arc_score)
  then show "- 100 < score (?cand (- 0.5))" by simp
  have z: "score (?cand 0) < score (?cand (- 0.5))"
    using m unfolding left_point_straight_score by simp
  have p: "score (?cand 0.5) < score (?cand (- 0.5))"
    using m left_point_left_arc_score [of transformICOM_spec] by simp
  show "\<forall>k' \<in> set [- 0.5, 0, 0.5]. k' \<noteq> - 0.5 \<longrightarrow> score (?cand k') < score (?cand (- 0.5))"
    unfolding list.set ball_simps using z p by blast
qed

text \<open>
  The candidates for the single point \<open>(2, 0)\<close>, straight ahead, and the candidates of the
  curvatures \<open>- 0.25\<close> and \<open>0.25\<close> for the point \<open>(1.5, 0.45)\<close>.
\<close>

lemma free_path_length_path_candidate:
  "free_path_length (path_candidate tf C cloud k) = calculateFreePathLength C cloud k"
  by (simp add: path_candidate_def Let_def)

lemma coarse_speed: "calculateControlSpeed coarse_controller 0.5 9.54 = 0.7"
  by (simp add: calculateControlSpeed_def coarse_controller_def Let_def power2_eq_square)

lemma select_path_greater: "score x < score c \<Longrightarrow> select_path c x = c"
  by (simp add: select_path_def)

lemma select_path_not_greater: "score c \<le> score x \<Longrightarrow> select_path c x = x"
  by (simp add: select_path_def)

lemma select_path_score_less:
  "score c < s \<Longrightarrow> score x < s \<Longrightarrow> score (select_path c x) < s"
  by (simp add: select_path_def)

lemma ahead_point_right_arc_score:
  "8.49 \<le> score (path_candidate tf coarse_controller [(2, 0)] (- 0.5))"
proof -
  have "max (outside_front_corner_radius coarse_controller 2) (outside_rear_corner_radius coarse_controller 2)
      < sqrt ((fst (2 :: real, 0 :: real))\<^sup>2
          + (2 - (if (- 0.5 :: real) < 0 then snd (2 :: real, 0 :: real) * (- 1)
                  else snd (2 :: real, 0 :: real)))\<^sup>2)"
    by (simp add: outside_front_corner_radius_def outside_rear_corner_radius_def
        coarse_controller_def power2_eq_square)
  from arc_point_culled [OF this]
  have f: "calculateFreePathLength coarse_controller [(2, 0)] (- 0.5) = 9.54"
    by (simp add: calculateFreePathLength_def Let_def coarse_initial)
  have "(2 + width (dimensions (car coarse_controller)) / 2 + margin coarse_controller
          + max_clearance coarse_controller)\<^sup>2
      < (fst (2 :: real, 0 :: real))\<^sup>2
          + (2 - (if (- 0.5 :: real) < 0 then snd (2 :: real, 0 :: real) * (- 1)
                  else snd (2 :: real, 0 :: real)))\<^sup>2"
    by (simp add: coarse_controller_def power2_eq_square)
  from clearance_arc_point_far [OF this]
  have c: "calculateClearance tf coarse_controller [(2, 0)] (- 0.5) f = 0.5" for f
    by (simp add: calculateClearance_def Let_def) (simp add: coarse_controller_def)
  show ?thesis
    unfolding score_path_candidate f c
    using coarse_goal_distance(2) [of "- 0.5"] by simp
qed

lemma ahead_point_right_arc_free_path_length:
  "calculateFreePathLength coarse_controller [(2, 0)] (- 0.5) = 9.54"
proof -
  have "max (outside_front_corner_radius coarse_controller 2) (outside_rear_corner_radius coarse_controller 2)
      < sqrt ((fst (2 :: real, 0 :: real))\<^sup>2
          + (2 - (if (- 0.5 :: real) < 0 then snd (2 :: real, 0 :: real) * (- 1)
                  else snd (2 :: real, 0 :: real)))\<^sup>2)"
    by (simp add: outside_front_corner_radius_def outside_rear_corner_radius_def
        coarse_controller_def power2_eq_square)
  from arc_point_culled [OF this] show ?thesis
    by (simp add: calculateFreePathLength_def Let_def coarse_initial)
qed

lemma ahead_point_straight_score:
  "score (path_candidate tf coarse_controller [(2, 0)] 0) = 0.565"
  by (simp add: score_path_candidate calculateFreePathLength_def straight_point_def
      calculateClearance_def clearance_straight_point_def coarse_initial
      coarse_goal_distance_zero)
     (simp add: coarse_controller_def)

lemma ahead_point_left_arc:
  "path_candidate tf coarse_controller [(2, 0)] 0.5
     = (path_candidate tf coarse_controller [(2, 0)] (- 0.5))\<lparr>PathCandidate.curvature := 0.5\<rparr>"
proof -
  have "reflect_cloud [(2 :: real, 0 :: real)] = [(2, 0)]" by (simp add: reflect_cloud_def)
  with path_candidate_reflect [of tf coarse_controller "[(2, 0)]" "- 0.5"]
  show ?thesis by simp
qed

lemma left_point_wide_right_arc_free_path_length:
  "calculateFreePathLength coarse_controller [(1.5, 0.45)] (- 0.25) = 9.54"
proof -
  have "max (outside_front_corner_radius coarse_controller 4) (outside_rear_corner_radius coarse_controller 4)
      < sqrt ((fst (1.5 :: real, 0.45 :: real))\<^sup>2
          + (4 - (if (- 0.25 :: real) < 0 then snd (1.5 :: real, 0.45 :: real) * (- 1)
                  else snd (1.5 :: real, 0.45 :: real)))\<^sup>2)"
    by (simp add: outside_front_corner_radius_def outside_rear_corner_radius_def
        coarse_controller_def power2_eq_square)
  from arc_point_culled [OF this] show ?thesis
    by (simp add: calculateFreePathLength_def Let_def coarse_initial)
qed

lemma left_point_wide_right_arc_clearance:
  "calculateClearance tf coarse_controller [(1.5, 0.45)] (- 0.25) f = 0.5"
proof -
  have "(4 + width (dimensions (car coarse_controller)) / 2 + margin coarse_controller
          + max_clearance coarse_controller)\<^sup>2
      < (fst (1.5 :: real, 0.45 :: real))\<^sup>2
          + (4 - (if (- 0.25 :: real) < 0 then snd (1.5 :: real, 0.45 :: real) * (- 1)
                  else snd (1.5 :: real, 0.45 :: real)))\<^sup>2"
    by (simp add: coarse_controller_def power2_eq_square)
  from clearance_arc_point_far [OF this] show ?thesis
    by (simp add: calculateClearance_def Let_def) (simp add: coarse_controller_def)
qed

lemma left_point_wide_right_arc_score:
  "8.49 \<le> score (path_candidate tf coarse_controller [(1.5, 0.45)] (- 0.25))"
  unfolding score_path_candidate left_point_wide_right_arc_free_path_length
    left_point_wide_right_arc_clearance
  using coarse_goal_distance(2) [of "- 0.25"] by simp

lemma left_point_wide_left_arc_free_path_length:
  "calculateFreePathLength coarse_controller [(1.5, 0.45)] 0.25 < 8"
proof -
  have lo: "inside_rear_axle_radius coarse_controller 4
       \<le> sqrt ((fst (1.5 :: real, 0.45 :: real))\<^sup>2 + (4 - snd (1.5 :: real, 0.45 :: real))\<^sup>2)"
    unfolding inside_rear_axle_radius_def
    by (rule real_le_rsqrt) (simp add: coarse_controller_def power2_eq_square)
  have hi: "sqrt ((fst (1.5 :: real, 0.45 :: real))\<^sup>2 + (4 - snd (1.5 :: real, 0.45 :: real))\<^sup>2)
       < outside_front_corner_radius coarse_controller 4"
    by (simp add: outside_front_corner_radius_def coarse_controller_def power2_eq_square)
  have "fst (arc_point coarse_controller 0.25 4 (1.5, 0.45) (9.54, 0)) < 4 * (pi / 2)"
    by (rule arc_point_blocked [OF _ _ _ _ _ lo hi])
       (simp_all add: inside_rear_axle_radius_def coarse_controller_def)
  also have "\<dots> < 8" using pi_less_4 by simp
  finally show ?thesis
    by (simp add: calculateFreePathLength_def Let_def coarse_initial)
qed

lemma left_point_wide_left_arc_score:
  "score (path_candidate tf coarse_controller [(1.5, 0.45)] 0.25) < 7.025"
  using coarse_goal_distance(1) [of "0.25"] left_point_wide_left_arc_free_path_length
    coarse_clearance_le [of tf "[(1.5, 0.45)]" "0.25"
      "calculateFreePathLength coarse_controller [(1.5, 0.45)] 0.25"]
  by (simp add: score_path_candidate)

lemma skew_path_candidate:
  "path_candidate tf skew_controller cloud k = path_candidate tf coarse_controller cloud k"
  by (simp add: skew_controller_def path_candidate_interval)

lemma skew_speed: "calculateControlSpeed skew_controller 0.5 9.54 = 0.7"
  by (simp add: calculateControlSpeed_def skew_controller_def coarse_controller_def Let_def
      power2_eq_square)

text \<open>
  The claim as stated fails in two ways.

  Ties: for the controller with the curvatures \<open>- 0.5, 0, 0.5\<close> and the single point
  \<open>(2, 0)\<close>, a cloud that is its own reflection, the straight path is blocked and scores
  0.565, and both arcs pass the point with the same score, at least 8.49. The strict
  comparison keeps the first of them, so both runs return the curvature \<open>- 0.5\<close>.

  Curvatures that are not symmetric: for the same controller with a sampling interval of
  0.75 the loop visits \<open>- 0.5\<close> and \<open>0.25\<close>. For the point \<open>(1.5, 0.45)\<close> the curvature
  \<open>- 0.5\<close> alone attains the greatest score; for the reflected cloud the command has the
  curvature \<open>0.25\<close>, since \<open>0.5\<close> is not visited.
\<close>

theorem reflection_symmetry_counterexample:
  "generateCommand (+) transformICOM_spec PathCandidate_zero coarse_controller [(2, 0)] 0.5
     = Some \<lparr>velocity = 0.7, curvature = - 0.5\<rparr> \<and>
   generateCommand (+) transformICOM_spec PathCandidate_zero coarse_controller
       (reflect_cloud [(2, 0)]) 0.5
     = Some \<lparr>velocity = 0.7, curvature = - 0.5\<rparr> \<and>
   generateCommand (+) transformICOM_spec PathCandidate_zero skew_controller [(1.5, 0.45)] 0.5
     = Some \<lparr>velocity = 0.7, curvature = - 0.5\<rparr> \<and>
   generateCommand (+) transformICOM_spec PathCandidate_zero skew_controller
       (reflect_cloud [(1.5, 0.45)]) 0.5
     = Some \<lparr>velocity = 0.7, curvature = 0.25\<rparr>"
proof (intro conjI)
  let ?b = "PathCandidate_of_score PathCandidate_zero (- 100)"
  let ?B = "path_candidate transformICOM_spec coarse_controller [(2, 0)]"
  let ?A = "path_candidate transformICOM_spec coarse_controller [(1.5, 0.45)]"
  let ?A' = "path_candidate transformICOM_spec coarse_controller (reflect_cloud [(1.5, 0.45)])"

  have mB: "8.49 \<le> score (?B (- 0.5))" by (rule ahead_point_right_arc_score)
  have b1: "select_path (?B (- 0.5)) ?b = ?B (- 0.5)"
    using mB by (intro select_path_greater) (simp add: score_sentinel)
  have b2: "select_path (?B 0) (?B (- 0.5)) = ?B (- 0.5)"
    using mB unfolding ahead_point_straight_score
    by (intro select_path_not_greater) (simp add: ahead_point_straight_score)
  have "score (?B 0.5) = score (?B (- 0.5))"
    unfolding ahead_point_left_arc by simp
  then have b3: "select_path (?B 0.5) (?B (- 0.5)) = ?B (- 0.5)"
    by (intro select_path_not_greater) (simp only: order_refl)
  have "evaluatePaths_with ?B (+) PathCandidate_zero coarse_controller
      = Some (fold select_path (map ?B [- 0.5, 0, 0.5]) ?b)"
    by (rule evaluatePaths_with_visits, rule coarse_visits)
  also have "fold select_path (map ?B [- 0.5, 0, 0.5]) ?b = ?B (- 0.5)"
    by (simp only: list.map fold_simps comp_apply id_apply b1 b2 b3)
  finally have eB: "evaluatePaths_with ?B (+) PathCandidate_zero coarse_controller = Some (?B (- 0.5))" .
  show gB: "generateCommand (+) transformICOM_spec PathCandidate_zero coarse_controller [(2, 0)] 0.5
     = Some \<lparr>velocity = 0.7, curvature = - 0.5\<rparr>"
    unfolding generateCommand_def generateCommand_with_def eB command_for_def
    by (simp only: option.case free_path_length_path_candidate curvature_path_candidate
        ahead_point_right_arc_free_path_length coarse_speed)
  have "reflect_cloud [(2 :: real, 0 :: real)] = [(2, 0)]" by (simp add: reflect_cloud_def)
  then show "generateCommand (+) transformICOM_spec PathCandidate_zero coarse_controller
       (reflect_cloud [(2, 0)]) 0.5
     = Some \<lparr>velocity = 0.7, curvature = - 0.5\<rparr>"
    using gB by (simp only:)

  have mA: "8.49 \<le> score (?A (- 0.5))" by (rule left_point_right_arc_score)
  have a1: "select_path (?A (- 0.5)) ?b = ?A (- 0.5)"
    using mA by (intro select_path_greater) (simp add: score_sentinel)
  have a2: "select_path (?A 0.25) (?A (- 0.5)) = ?A (- 0.5)"
    using mA left_point_wide_left_arc_score [of transformICOM_spec]
    by (intro select_path_not_greater) simp
  have "evaluatePaths_with (path_candidate transformICOM_spec skew_controller [(1.5, 0.45)]) (+)
          PathCandidate_zero skew_controller
      = Some (fold select_path
          (map (path_candidate transformICOM_spec skew_controller [(1.5, 0.45)]) [- 0.5, 0.25]) ?b)"
    by (rule evaluatePaths_with_visits, rule skew_visits)
  also have "fold select_path
          (map (path_candidate transformICOM_spec skew_controller [(1.5, 0.45)]) [- 0.5, 0.25]) ?b
      = ?A (- 0.5)"
    by (simp only: list.map fold_simps comp_apply id_apply skew_path_candidate a1 a2)
  finally have eA: "evaluatePaths_with (path_candidate transformICOM_spec skew_controller [(1.5, 0.45)])
      (+) PathCandidate_zero skew_controller = Some (?A (- 0.5))" .
  show "generateCommand (+) transformICOM_spec PathCandidate_zero skew_controller [(1.5, 0.45)] 0.5
     = Some \<lparr>velocity = 0.7, curvature = - 0.5\<rparr>"
    unfolding generateCommand_def generateCommand_with_def eA command_for_def
    by (simp only: option.case free_path_length_path_candidate curvature_path_candidate
        left_point_right_arc_free_path_length skew_speed)

  have r1: "?A' (- 0.5) = (?A 0.5)\<lparr>PathCandidate.curvature := - 0.5\<rparr>"
    by (rule path_candidate_reflect)
  have "?A' (- (- 0.25)) = (?A (- 0.25))\<lparr>PathCandidate.curvature := - (- 0.25)\<rparr>"
    by (rule path_candidate_reflect)
  moreover have "- (- 0.25) = (0.25 :: real)" by simp
  ultimately have r2: "?A' 0.25 = (?A (- 0.25))\<lparr>PathCandidate.curvature := 0.25\<rparr>"
    by (simp only:)
  have s1: "score (?A' (- 0.5)) < 8.49"
    using left_point_left_arc_score [of transformICOM_spec] unfolding r1 by simp
  have s2: "8.49 \<le> score (?A' 0.25)"
    using left_point_wide_right_arc_score [of transformICOM_spec] unfolding r2 by simp
  have "score (select_path (?A' (- 0.5)) ?b) < 8.49"
    using s1 by (intro select_path_score_less) (simp_all add: score_sentinel)
  with s2 have a': "select_path (?A' 0.25) (select_path (?A' (- 0.5)) ?b) = ?A' 0.25"
    by (intro select_path_greater) simp
  have "evaluatePaths_with
          (path_candidate transformICOM_spec skew_controller (reflect_cloud [(1.5, 0.45)])) (+)
          PathCandidate_zero skew_controller
      = Some (fold select_path
          (map (path_candidate transformICOM_spec skew_controller (reflect_cloud [(1.5, 0.45)]))
             [- 0.5, 0.25]) ?b)"
    by (rule evaluatePaths_with_visits, rule skew_visits)
  also have "fold select_path
          (map (path_candidate transformICOM_spec skew_controller (reflect_cloud [(1.5, 0.45)]))
             [- 0.5, 0.25]) ?b
      = ?A' 0.25"
    by (simp only: list.map fold_simps comp_apply id_apply skew_path_candidate a')
  finally have eA': "evaluatePaths_with
      (path_candidate transformICOM_spec skew_controller (reflect_cloud [(1.5, 0.45)]))
      (+) PathCandidate_zero skew_controller = Some (?A' 0.25)" .
  have "free_path_length (?A' 0.25) = free_path_length (?A (- 0.25))"
    unfolding r2 by simp
  then have f': "free_path_length (?A' 0.25) = 9.54"
    by (simp only: free_path_length_path_candidate left_point_wide_right_arc_free_path_length)
  have c': "PathCandidate.curvature (?A' 0.25) = 0.25" by (rule curvature_path_candidate)
  show "generateCommand (+) transformICOM_spec PathCandidate_zero skew_controller
       (reflect_cloud [(1.5, 0.45)]) 0.5
     = Some \<lparr>velocity = 0.7, curvature = 0.25\<rparr>"
    unfolding generateCommand_def generateCommand_with_def eA' command_for_def
    by (simp only: option.case f' c' skew_speed)
qed

section \<open>The command history of the compensator\<close>

subsection \<open>recordCommand\<close>

lemma sorted_le_last: "sorted xs \<Longrightarrow> y \<in> set xs \<Longrightarrow> y \<le> last (xs :: real list)"
  by (induction xs) auto

lemma sorted_snoc_last:
  "sorted (xs @ [x :: real]) \<longleftrightarrow> sorted xs \<and> (xs = [] \<or> last xs \<le> x)"
proof (cases "xs = []")
  case True
  then show ?thesis by simp
next
  case False
  show ?thesis
  proof
    assume "sorted (xs @ [x])"
    then show "sorted xs \<and> (xs = [] \<or> last xs \<le> x)"
      using False by (auto simp: sorted_append)
  next
    assume a: "sorted xs \<and> (xs = [] \<or> last xs \<le> x)"
    then have l: "last xs \<le> x" using False by simp
    have "y \<le> x" if "y \<in> set xs" for y
      using sorted_le_last [of xs y] a that l by simp
    with a show "sorted (xs @ [x])" by (simp add: sorted_append)
  qed
qed

text \<open>
  Claim C8, amended. \<^const>\<open>recordCommand\<close> appends the stamped command as it is, with its
  timestamp unchanged, and writes nothing else. The timestamps of the history are
  non-decreasing afterwards exactly when they were before and the new timestamp is not
  earlier than the timestamp of the tail.
\<close>

theorem recordCommand_appends_unclamped:
  "command_history (recordCommand L cs) = command_history L @ [cs] \<and>
   latency (recordCommand L cs) = latency L \<and> toc (recordCommand L cs) = toc L \<and>
   (sorted (map timestamp (command_history (recordCommand L cs))) \<longleftrightarrow>
      sorted (map timestamp (command_history L)) \<and>
      (command_history L = [] \<or> timestamp (last (command_history L)) \<le> timestamp cs))"
  by (cases "command_history L = []") (simp_all add: recordCommand_def sorted_snoc_last last_map)

text \<open>
  The claim as stated (an earlier timestamp is clamped to the tail's) fails: after a command
  stamped 9.7, a command stamped 9.5 is stored with the timestamp 9.5, and the timestamps
  are no longer non-decreasing.
\<close>

lemma stale_history:
  "map timestamp (command_history
      (recordCommand (recordCommand fresh_compensator (stamped 1 0 9.7)) (stamped 1 0 9.5)))
     = [9.7, 9.5]"
  by (simp add: recordCommand_def fresh_compensator_def stamped_def)

theorem recordCommand_clamp_counterexample:
  "timestamp (last (command_history (recordCommand fresh_compensator (stamped 1 0 9.7)))) = 9.7 \<and>
   timestamp (last (command_history
      (recordCommand (recordCommand fresh_compensator (stamped 1 0 9.7)) (stamped 1 0 9.5)))) = 9.5 \<and>
   \<not> sorted (map timestamp (command_history
      (recordCommand (recordCommand fresh_compensator (stamped 1 0 9.7)) (stamped 1 0 9.5))))"
proof (intro conjI)
  show "timestamp (last (command_history (recordCommand fresh_compensator (stamped 1 0 9.7)))) = 9.7"
    by (simp add: recordCommand_def fresh_compensator_def stamped_def)
  show "timestamp (last (command_history
      (recordCommand (recordCommand fresh_compensator (stamped 1 0 9.7)) (stamped 1 0 9.5)))) = 9.5"
    by (simp add: recordCommand_def fresh_compensator_def stamped_def)
  have "\<not> (9.7 :: real) \<le> 9.5" by simp
  then show "\<not> sorted (map timestamp (command_history
      (recordCommand (recordCommand fresh_compensator (stamped 1 0 9.7)) (stamped 1 0 9.5))))"
    by (simp only: stale_history sorted2_simps sorted1 simp_thms)
qed

subsection \<open>Pruning in projectState\<close>

lemma pop_expired_drop: "\<exists>n. pop_expired t lat h = drop n h"
proof (induction h)
  case Nil
  show ?case by simp
next
  case (Cons c h)
  show ?case
  proof (cases "t - timestamp c < lat")
    case True
    then have "pop_expired t lat (c # h) = drop 0 (c # h)" by simp
    then show ?thesis by blast
  next
    case False
    from Cons.IH obtain n where "pop_expired t lat h = drop n h" by blast
    with False have "pop_expired t lat (c # h) = drop (Suc n) (c # h)" by simp
    then show ?thesis by blast
  qed
qed

lemma pop_expired_fresh:
  "sorted (map timestamp h) \<Longrightarrow> e \<in> set (pop_expired t lat h) \<Longrightarrow> t - timestamp e < lat"
proof (induction h)
  case Nil
  then show ?case by simp
next
  case (Cons c h)
  show ?case
  proof (cases "t - timestamp c < lat")
    case True
    with Cons.prems have "e = c \<or> e \<in> set h" by simp
    moreover have "timestamp c \<le> timestamp e'" if "e' \<in> set h" for e'
      using Cons.prems(1) that by auto
    ultimately show ?thesis using True by fastforce
  next
    case False
    with Cons show ?thesis by simp
  qed
qed

lemma projectState_frame:
  "command_history (snd (projectState now L v ts)) = pop_expired now (latency L) (command_history L)"
  "latency (snd (projectState now L v ts)) = latency L"
  "toc (snd (projectState now L v ts)) = toc L"
  by (cases "command_history L"; simp add: projectState_def Let_def)+


lemma generateCommand_returns:
  assumes "0 < d"
    and "\<And>k. - max_curvature (limits (car C)) \<le> k \<Longrightarrow> k \<le> max_curvature (limits (car C))
                \<Longrightarrow> k + d \<le> fadd k (curvature_sampling_interval C)"
  shows "\<exists>cmd. generateCommand fadd tf dflt C cloud v = Some cmd"
proof -
  from evaluatePaths_with_cases [of d C fadd "path_candidate tf C cloud" dflt, OF assms]
  obtain p where "evaluatePaths_with (path_candidate tf C cloud) fadd dflt C = Some p"
    by blast
  then show ?thesis by (simp add: generateCommand_def generateCommand_with_def)
qed

lemma generateCommand_latency_Some:
  assumes "generateCommand fadd tf dflt (toc L) (transformCloud cloud (fst (projectState now L v ts)))
             (speed (fst (projectState now L v ts))) = Some cmd"
  shows "generateCommand_latency fadd tf dflt now stamp L cloud v ts
     = Some (cmd, recordCommand_unstamped stamp (snd (projectState now L v ts)) cmd)"
  using assms
  by (simp add: generateCommand_latency_def Let_def split_beta projectState_frame)

text \<open>
  Claim C9, amended. Let each addition of the sampling interval to a curvature within the
  limits advance by at least a fixed positive amount (with the exact sum: let the sampling
  interval be positive), let the latency be positive, the new command be stamped no earlier
  than the time of pruning, and the timestamps of the history be non-decreasing at the
  call. Then \<^const>\<open>generateCommand_latency\<close> returns, the history afterwards is a suffix of
  the history before (entries are removed from the head only, the order of the others is
  kept) followed by the new command, and every entry of it satisfies
  \<open>now - timestamp < latency\<close>.
\<close>

theorem generateCommand_latency_history:
  assumes d: "0 < d"
    and adv: "\<And>k. - max_curvature (limits (car (toc L))) \<le> k
                \<Longrightarrow> k \<le> max_curvature (limits (car (toc L)))
                \<Longrightarrow> k + d \<le> fadd k (curvature_sampling_interval (toc L))"
    and lat: "0 < latency L"
    and clock: "now \<le> stamp"
    and srt: "sorted (map timestamp (command_history L))"
  shows "\<exists>cmd L'. generateCommand_latency fadd tf dflt now stamp L cloud v ts = Some (cmd, L') \<and>
     latency L' = latency L \<and>
     (\<exists>n. command_history L' = drop n (command_history L) @ [CommandStamped_of_Command stamp cmd]) \<and>
     (\<forall>e \<in> set (command_history L'). now - timestamp e < latency L')"
proof -
  let ?P = "projectState now L v ts"
  from generateCommand_returns [of d "toc L" fadd, OF d adv]
  obtain cmd where cmd: "generateCommand fadd tf dflt (toc L) (transformCloud cloud (fst ?P)) (speed (fst ?P)) = Some cmd"
    by blast
  let ?L' = "recordCommand_unstamped stamp (snd ?P) cmd"
  have g: "generateCommand_latency fadd tf dflt now stamp L cloud v ts = Some (cmd, ?L')"
    by (rule generateCommand_latency_Some [OF cmd])
  have h: "command_history ?L' = pop_expired now (latency L) (command_history L) @ [CommandStamped_of_Command stamp cmd]"
    by (simp add: recordCommand_unstamped_def recordCommand_def projectState_frame)
  have l: "latency ?L' = latency L"
    by (simp add: recordCommand_unstamped_def recordCommand_def projectState_frame)
  from pop_expired_drop obtain n where n: "pop_expired now (latency L) (command_history L) = drop n (command_history L)"
    by blast
  have fresh: "\<forall>e \<in> set (command_history ?L'). now - timestamp e < latency ?L'"
  proof
    fix e assume "e \<in> set (command_history ?L')"
    then have "e \<in> set (pop_expired now (latency L) (command_history L)) \<or> e = CommandStamped_of_Command stamp cmd"
      by (auto simp: h)
    then show "now - timestamp e < latency ?L'"
    proof
      assume "e \<in> set (pop_expired now (latency L) (command_history L))"
      then show ?thesis using pop_expired_fresh [OF srt] l by simp
    next
      assume "e = CommandStamped_of_Command stamp cmd"
      then show ?thesis using clock lat l by (simp add: CommandStamped_of_Command_def)
    qed
  qed
  show ?thesis
    using g l h n fresh by (intro exI conjI) (assumption | simp)+
qed


lemma in_flight_history:
  "map timestamp (command_history
     (recordCommand (recordCommand (recordCommand fresh_compensator (stamped 1 0 9.7))
        (stamped 1 0 9.8)) (stamped 1 0 9.9))) = [9.7, 9.8, 9.9]"
  by (simp add: recordCommand_def fresh_compensator_def stamped_def)

theorem generateCommand_latency_history_witness:
  "\<exists>cmd L'. generateCommand_latency (+) transformICOM_spec PathCandidate_zero 10 10
       (recordCommand (recordCommand (recordCommand fresh_compensator (stamped 1 0 9.7))
          (stamped 1 0 9.8)) (stamped 1 0 9.9)) [(1, 0)] 1 10 = Some (cmd, L') \<and>
     latency L' = latency (recordCommand (recordCommand (recordCommand fresh_compensator (stamped 1 0 9.7))
          (stamped 1 0 9.8)) (stamped 1 0 9.9)) \<and>
     (\<exists>n. command_history L' = drop n (command_history (recordCommand (recordCommand (recordCommand fresh_compensator (stamped 1 0 9.7))
          (stamped 1 0 9.8)) (stamped 1 0 9.9))) @ [CommandStamped_of_Command 10 cmd]) \<and>
     (\<forall>e \<in> set (command_history L'). 10 - timestamp e < latency L')"
proof (rule generateCommand_latency_history [where d = "0.05"])
  let ?L = "recordCommand (recordCommand (recordCommand fresh_compensator (stamped 1 0 9.7))
          (stamped 1 0 9.8)) (stamped 1 0 9.9)"
  show "(0 :: real) < 0.05" by simp
  show "k + 0.05 \<le> k + curvature_sampling_interval (toc ?L)" for k
    by (simp add: recordCommand_def fresh_compensator_def test_controller_def)
  show "0 < latency ?L"
    by (simp add: recordCommand_def fresh_compensator_def)
  show "(10 :: real) \<le> 10" by simp
  have "(9.7 :: real) \<le> 9.8 \<and> (9.8 :: real) \<le> 9.9" by simp
  then show "sorted (map timestamp (command_history ?L))"
    by (simp only: in_flight_history sorted2_simps sorted1 simp_thms)
qed

text \<open>
  The claim as stated (after every call) fails when the history is not sorted: with the
  commands stamped 9.9 and then 9.7 recorded, a call at time 10 with latency 0.15 finds a
  fresh head and prunes nothing, so the entry stamped 9.7 survives although
  \<open>10 - 9.7 \<ge> 0.15\<close>.
\<close>

theorem history_pruning_counterexample:
  "\<exists>cmd L'. generateCommand_latency (+) transformICOM_spec PathCandidate_zero 10 10
       (recordCommand (recordCommand fresh_compensator (stamped 1 0 9.9)) (stamped 1 0 9.7))
       [(1, 0)] 1 10 = Some (cmd, L') \<and>
     map timestamp (command_history L') = [9.9, 9.7, 10] \<and>
     \<not> (10 - 9.7 < latency L')"
proof -
  let ?L = "recordCommand (recordCommand fresh_compensator (stamped 1 0 9.9)) (stamped 1 0 9.7)"
  let ?P = "projectState 10 ?L 1 10"
  have "k + 0.05 \<le> k + curvature_sampling_interval (toc ?L)" for k
    by (simp add: recordCommand_def fresh_compensator_def test_controller_def)
  moreover have "(0 :: real) < 0.05" by simp
  ultimately have "\<exists>cmd. generateCommand (+) transformICOM_spec PathCandidate_zero (toc ?L)
      (transformCloud [(1, 0)] (fst ?P)) (speed (fst ?P)) = Some cmd"
    by (intro generateCommand_returns [of "0.05" "toc ?L" "(+)"])
  then obtain cmd where cmd: "generateCommand (+) transformICOM_spec PathCandidate_zero (toc ?L)
      (transformCloud [(1, 0)] (fst ?P)) (speed (fst ?P)) = Some cmd"
    by blast
  let ?L' = "recordCommand_unstamped 10 (snd ?P) cmd"
  have g: "generateCommand_latency (+) transformICOM_spec PathCandidate_zero 10 10 ?L [(1, 0)] 1 10 = Some (cmd, ?L')"
    by (rule generateCommand_latency_Some [OF cmd])
  have h: "map timestamp (command_history ?L') = [9.9, 9.7, 10]"
    by (simp add: recordCommand_unstamped_def recordCommand_def projectState_frame
        CommandStamped_of_Command_def fresh_compensator_def stamped_def)
  have l: "\<not> (10 - 9.7 < latency ?L')"
    by (simp add: recordCommand_unstamped_def recordCommand_def projectState_frame
        fresh_compensator_def)
  show ?thesis
    by (rule exI [of _ cmd], rule exI [of _ ?L'], intro conjI) (fact g h l)+
qed

subsection \<open>The free-path-length probe\<close>

text \<open>
  Claim C10. The probe \<^const>\<open>calculateFreePathLength_latency\<close> is not a pure observer: for
  a history holding one command stamped 9.7, a call at time 10 with latency 0.15 empties the
  history. In every call the history afterwards is the pruned history, and the latency and
  the owned controller are unchanged.
\<close>

theorem probe_mutates_history:
  "command_history (snd (calculateFreePathLength_latency 10
       (recordCommand fresh_compensator (stamped 1 0 9.7)) [] 0 10)) = [] \<and>
   command_history (recordCommand fresh_compensator (stamped 1 0 9.7)) = [stamped 1 0 9.7] \<and>
   latency (snd (calculateFreePathLength_latency now L cloud k ts)) = latency L \<and>
   toc (snd (calculateFreePathLength_latency now L cloud k ts)) = toc L \<and>
   command_history (snd (calculateFreePathLength_latency now L cloud k ts))
     = pop_expired now (latency L) (command_history L)"
  by (simp add: calculateFreePathLength_latency_def split_beta Let_def projectState_frame)
     (simp add: recordCommand_def fresh_compensator_def stamped_def)


end
